theory Spec2Isabelle
  imports Main
begin

section \<open>dumb-init: the supervisor of \<^verbatim>\<open>src/dumb-init.c\<close>\<close>

text \<open>
  The C program keeps its configuration in global variables and talks to the kernel
  through \<^verbatim>\<open>kill\<close>, \<^verbatim>\<open>fork\<close>, \<^verbatim>\<open>waitpid\<close>, \<^verbatim>\<open>exit\<close> and the directory \<^verbatim>\<open>/proc\<close>.
  The embedding passes the globals as a record, takes what the kernel answers from an
  environment record, and returns the list of effects a function performs together with
  the way it ends: by returning, by \<^verbatim>\<open>exit\<close>, by replacing the process image, by a
  failed \<^verbatim>\<open>assert\<close>, or by reading a variable that was never assigned.
\<close>

subsection \<open>Constants\<close>

definition MAXSIG :: int where
  "MAXSIG = 64"

text \<open>
  Modelled from the spec: the signal numbers of \<^verbatim>\<open>signal.h\<close> are not part of the
  repository. The spec's scenarios fix the Linux numbering (SIGTERM is 15: a child
  killed by it gives 143), and the job-control signals take their Linux values.
\<close>

definition SIGTERM :: int where
  "SIGTERM = 15"

definition SIGCHLD :: int where
  "SIGCHLD = 17"

definition SIGSTOP :: int where
  "SIGSTOP = 19"

definition SIGTSTP :: int where
  "SIGTSTP = 20"

definition SIGTTIN :: int where
  "SIGTTIN = 21"

definition SIGTTOU :: int where
  "SIGTTOU = 22"

text \<open>
  The values a slot of \<^verbatim>\<open>signal_rewrite\<close> holds besides a signal number: the
  initialiser \<^verbatim>\<open>-1\<close> (no rewrite), \<^verbatim>\<open>0\<close> (ignore), and \<^verbatim>\<open>-2\<close> (run the action).
\<close>

definition UNSET :: int where
  "UNSET = - 1"

definition IGNORE :: int where
  "IGNORE = 0"

definition ACTION :: int where
  "ACTION = - 2"

subsection \<open>Globals, environment, effects\<close>

text \<open>
  The two tables have \<^verbatim>\<open>MAXSIG + 1\<close> slots, index 0 unused by the handler. The static
  \<^verbatim>\<open>bereaved\<close> of \<^verbatim>\<open>handle_signal\<close> lives with the globals.
\<close>

record globals =
  signal_rewrite :: "int list"
  signal_action :: "string list"
  child_pid :: int
  debug :: bool
  use_setsid :: bool
  survive_bereaving :: bool
  bereaved :: bool

definition init_globals :: globals where
  "init_globals =
     \<lparr>signal_rewrite = replicate 65 (- 1),
      signal_action = replicate 65 [],
      child_pid = - 1,
      debug = False,
      use_setsid = True,
      survive_bereaving = False,
      bereaved = False\<rparr>"

text \<open>
  The macros of \<^verbatim>\<open>sys/wait.h\<close> are not part of the repository: a wait status is taken as
  what the four macros the handler uses answer on it.
\<close>

record wstatus =
  WIFEXITED :: bool
  WEXITSTATUS :: int
  WIFSIGNALED :: bool
  WTERMSIG :: int

text \<open>
  What the kernel answers during one call of the handler: the successive results of
  \<^verbatim>\<open>waitpid(-1, &status, WNOHANG)\<close> as pairs of PID and status (after the last pair the
  call returns no PID), the result of \<^verbatim>\<open>fork\<close>, the error of \<^verbatim>\<open>execlp\<close> if it fails, the
  names in \<^verbatim>\<open>/proc\<close> (\<open>None\<close> when \<^verbatim>\<open>opendir\<close> fails) and the result of \<^verbatim>\<open>getpid\<close>.
\<close>

record env =
  waitpid_results :: "(int \<times> wstatus) list"
  fork_result :: int
  execlp_error :: "string option"
  proc_entries :: "string list option"
  getpid :: int

text \<open>
  The arguments of a message (\<^verbatim>\<open>VERSION\<close> is the string of \<^verbatim>\<open>VERSION.h\<close>, which is not
  part of the repository), the effects on the outside, and the ways a function ends.
\<close>

datatype arg = Num int | Str string | VERSION

datatype effect =
    Stderr string "arg list"
  | Kill int int
  | Fork
  | Sigprocmask_unblock

datatype 'a res =
    Return 'a
  | Exit int
  | Exec string "string list"
  | Abort
  | Undefined

text \<open>
  The macros \<^verbatim>\<open>PRINTERR\<close> and \<^verbatim>\<open>DEBUG\<close>. A message is its format string, without the
  tag \<^verbatim>\<open>[dumb-init] \<close> and the final newline, and its arguments.
\<close>

definition PRINTERR :: "string \<Rightarrow> arg list \<Rightarrow> effect list" where
  "PRINTERR fmt args = [Stderr fmt args]"

definition DEBUG :: "globals \<Rightarrow> string \<Rightarrow> arg list \<Rightarrow> effect list" where
  "DEBUG g fmt args = (if debug g then PRINTERR fmt args else [])"

subsection \<open>Forwarding\<close>

definition translate_signal :: "globals \<Rightarrow> int \<Rightarrow> effect list \<times> int" where
  "translate_signal g signum =
     (if signum \<le> 0 \<or> signum > MAXSIG then ([], signum)
      else
        let translated = signal_rewrite g ! nat signum in
        if translated = - 1 then ([], signum)
        else (DEBUG g ''Translating signal %d to %d.'' [Num signum, Num translated], translated))"

text \<open>
  \<^verbatim>\<open>do_action\<close> keeps the result of \<^verbatim>\<open>fork\<close> in a local variable that shadows the global
  \<^verbatim>\<open>child_pid\<close>; the globals are only read. In the forked process it unblocks the signals
  and runs the command through \<^verbatim>\<open>/bin/bash -c\<close>.
\<close>

definition do_action :: "env \<Rightarrow> globals \<Rightarrow> int \<Rightarrow> effect list \<times> unit res" where
  "do_action e g signum =
     (let d = DEBUG g ''Action for signal %d: running %s''
                [Num signum, Str (signal_action g ! nat signum)];
          local_child_pid = fork_result e
      in
        if local_child_pid < 0 then
          (d @ [Fork] @ PRINTERR ''Unable to fork. Exiting.'' [], Exit 1)
        else if local_child_pid = 0 then
          (case execlp_error e of
             None \<Rightarrow>
               (d @ [Fork, Sigprocmask_unblock],
                Exec ''/bin/bash'' [''/bin/bash'', ''-c'', signal_action g ! nat signum])
           | Some err \<Rightarrow>
               (d @ [Fork, Sigprocmask_unblock] @
                  PRINTERR ''Could not exec %s: %s'' [Str (signal_action g ! nat signum), Str err],
                Exit 1))
        else (d @ [Fork], Return ()))"

definition forward_signal :: "env \<Rightarrow> globals \<Rightarrow> int \<Rightarrow> effect list \<times> unit res" where
  "forward_signal e g signum =
     (let (t, new_signum) = translate_signal g signum in
      if new_signum = - 2 then
        (let (a, r) = do_action e g signum in (t @ a, r))
      else if new_signum \<noteq> - 1 then
        (t @ [Kill (if use_setsid g then - child_pid g else child_pid g) new_signum] @
           DEBUG g ''Forwarded signal %d to children.'' [Num new_signum],
         Return ())
      else
        (t @ DEBUG g ''Not forwarding signal %d to children (ignored).'' [Num new_signum],
         Return ()))"

subsection \<open>Sequencing\<close>

text \<open>
  Sequencing: the second part runs only when the first returns; \<^verbatim>\<open>exit\<close>, a replaced
  process image, a failed assertion and an undefined read end the whole call. Effects
  accumulate in order.
\<close>

fun bind :: "effect list \<times> 'a res \<Rightarrow> ('a \<Rightarrow> effect list \<times> 'b res) \<Rightarrow> effect list \<times> 'b res" where
  "bind (es, Return x) k = (let (es', r) = k x in (es @ es', r))"
| "bind (es, Exit n) k = (es, Exit n)"
| "bind (es, Exec p a) k = (es, Exec p a)"
| "bind (es, Abort) k = (es, Abort)"
| "bind (es, Undefined) k = (es, Undefined)"

definition say :: "effect list \<Rightarrow> effect list \<times> unit res" where
  "say es = (es, Return ())"

subsection \<open>The bereavement monitor\<close>

definition isdigit :: "char \<Rightarrow> bool" where
  "isdigit c = (48 \<le> (of_char c :: nat) \<and> (of_char c :: nat) \<le> 57)"

text \<open>The inner loop of \<^verbatim>\<open>process_count\<close> over the characters of a name.\<close>

fun nonnumber :: "string \<Rightarrow> bool" where
  "nonnumber [] = False"
| "nonnumber (c # cs) = (if \<not> isdigit c then True else nonnumber cs)"

text \<open>The loop over the entries \<^verbatim>\<open>readdir\<close> gives, with the running count.\<close>

fun readdir_loop :: "globals \<Rightarrow> string list \<Rightarrow> int \<Rightarrow> effect list \<times> int" where
  "readdir_loop g [] count = ([], count)"
| "readdir_loop g (d_name # rest) count =
     (if \<not> nonnumber d_name then
        (let d = DEBUG g ''/proc/%s is a process'' [Str d_name];
             count1 = count + 1
         in
           if count1 > 1 then (d, 2)
           else (let (es, r) = readdir_loop g rest count1 in (d @ es, r)))
      else readdir_loop g rest count)"

definition process_count :: "env \<Rightarrow> globals \<Rightarrow> effect list \<times> int res" where
  "process_count e g =
     (case proc_entries e of
        Some names \<Rightarrow> (let (es, r) = readdir_loop g names 0 in (es, Return r))
      | None \<Rightarrow> (PRINTERR ''Could not open /proc.'' [], Return (- 1)))"

subsection \<open>The handler\<close>

text \<open>
  Lines 161 to 168: the exit status computed for a reaped process. The \<^verbatim>\<open>assert\<close> ends
  the program when the status is neither a normal exit nor a death by signal.
\<close>

definition wait_exit_status :: "globals \<Rightarrow> int \<Rightarrow> wstatus \<Rightarrow> effect list \<times> int res" where
  "wait_exit_status g killed_pid status =
     (if WIFEXITED status then
        (let exit_status = WEXITSTATUS status in
         (DEBUG g ''A child with PID %d exited with exit status %d.''
            [Num killed_pid, Num exit_status],
          Return exit_status))
      else if WIFSIGNALED status then
        (let exit_status = 128 + WTERMSIG status in
         (DEBUG g ''A child with PID %d was terminated by signal %d.''
            [Num killed_pid, Num (exit_status - 128)],
          Return exit_status))
      else ([], Abort))"

text \<open>
  The \<^verbatim>\<open>while\<close> loop of the handler over the results of \<^verbatim>\<open>waitpid\<close>: it ends at the
  first result that is not a PID, or with the \<^verbatim>\<open>exit\<close> after the direct child.
\<close>

fun reap_children ::
  "env \<Rightarrow> globals \<Rightarrow> (int \<times> wstatus) list \<Rightarrow> effect list \<times> globals res" where
  "reap_children e g [] = ([], Return g)"
| "reap_children e g ((killed_pid, status) # rest) =
     (if killed_pid > 0 then
        (case wait_exit_status g killed_pid status of
           (d, Return exit_status) \<Rightarrow>
             if killed_pid = child_pid g then
               (let g1 = g\<lparr>bereaved := True\<rparr> in
                if \<not> survive_bereaving g1 then
                  bind (d, Return ()) (\<lambda>_.
                  bind (forward_signal e g1 SIGTERM) (\<lambda>_.
                  bind (say (DEBUG g1 ''Child exited with status %d. Goodbye.'' [Num exit_status])) (\<lambda>_.
                    ([], Exit exit_status))))
                else
                  (let (es, r) = reap_children e g1 rest in
                   (d @ DEBUG g1 ''Child exited with status %d. Stay alive for your grandchildren.''
                          [Num exit_status] @ es,
                    r)))
             else (let (es, r) = reap_children e g rest in (d @ es, r))
         | (d, Exit n) \<Rightarrow> (d, Exit n)
         | (d, Exec p a) \<Rightarrow> (d, Exec p a)
         | (d, Abort) \<Rightarrow> (d, Abort)
         | (d, Undefined) \<Rightarrow> (d, Undefined))
      else ([], Return g))"

definition handle_signal :: "env \<Rightarrow> globals \<Rightarrow> int \<Rightarrow> effect list \<times> globals res" where
  "handle_signal e g signum =
     bind (say (DEBUG g ''Received signal %d.'' [Num signum])) (\<lambda>_.
       if signum = SIGCHLD then
         bind (reap_children e g (waitpid_results e)) (\<lambda>g1.
           if bereaved g1 \<and> survive_bereaving g1 then
             bind (process_count e g1) (\<lambda>pc.
             bind (say (DEBUG g1 ''Process count: %d'' [Num pc])) (\<lambda>_.
               if pc \<le> 1 then
                 bind (say (DEBUG g1 ''No process left, exitting.'' [])) (\<lambda>_.
                   ([], Exit 0))
               else ([], Return g1)))
           else ([], Return g1))
       else
         bind (forward_signal e g signum) (\<lambda>_.
           if signum = SIGTSTP \<or> signum = SIGTTOU \<or> signum = SIGTTIN then
             bind (say (DEBUG g ''Suspending self due to TTY signal.'' [])) (\<lambda>_.
             bind (say [Kill (getpid e) SIGSTOP]) (\<lambda>_.
               ([], Return g)))
           else ([], Return g)))"

subsection \<open>Scanning the option arguments\<close>

text \<open>
  \<^verbatim>\<open>sscanf\<close> belongs to the C library. The two formats the program uses are modelled
  after the C standard: \<^verbatim>\<open>%d\<close> skips white space, takes an optional sign and at least one
  decimal digit; the colon must follow at once; \<^verbatim>\<open>%n\<close> stores the number of characters
  read so far and does not count as a conversion. Characters after the last directive
  are not looked at. The value of \<^verbatim>\<open>%d\<close> is the number written: the standard leaves a
  number that does not fit an \<^verbatim>\<open>int\<close> undefined, and where glibc wraps such a number to
  32 bits the model keeps it as it is, out of every range the parsers accept. The
  properties below are about numbers from 0 to \<^verbatim>\<open>MAXSIG\<close>. The count returned is the number of
  conversions made; the C function returns \<^verbatim>\<open>EOF\<close> instead of 0 when the input ends before
  the first conversion, and both differ from the counts the program compares with.
\<close>

definition isspace :: "char \<Rightarrow> bool" where
  "isspace c = ((of_char c :: nat) = 32 \<or> (9 \<le> (of_char c :: nat) \<and> (of_char c :: nat) \<le> 13))"

fun scan_digits :: "string \<Rightarrow> int \<Rightarrow> int \<times> string" where
  "scan_digits [] acc = (acc, [])"
| "scan_digits (c # cs) acc =
     (if isdigit c then scan_digits cs (acc * 10 + (int (of_char c) - 48)) else (acc, c # cs))"

definition scan_d :: "string \<Rightarrow> (int \<times> string) option" where
  "scan_d s =
     (let s1 = dropWhile isspace s;
          negative = (case s1 of [] \<Rightarrow> False | c # _ \<Rightarrow> c = CHR ''-'');
          s2 = (case s1 of [] \<Rightarrow> [] | c # cs \<Rightarrow> if c = CHR ''-'' \<or> c = CHR ''+'' then cs else s1)
      in
        case s2 of
          [] \<Rightarrow> None
        | c # _ \<Rightarrow>
            if isdigit c then
              (let (v, rest) = scan_digits s2 0 in Some (if negative then - v else v, rest))
            else None)"

text \<open>
  \<^verbatim>\<open>sscanf(arg, "%d:%d", &signum, &replacement)\<close>: the count returned and the two
  variables, \<open>None\<close> for one that was not assigned.
\<close>

definition sscanf_d_d :: "string \<Rightarrow> int \<times> int option \<times> int option" where
  "sscanf_d_d arg =
     (case scan_d arg of
        None \<Rightarrow> (0, None, None)
      | Some (signum, rest) \<Rightarrow>
          (case rest of
             [] \<Rightarrow> (1, Some signum, None)
           | c # rest1 \<Rightarrow>
               if c = CHR '':'' then
                 (case scan_d rest1 of
                    None \<Rightarrow> (1, Some signum, None)
                  | Some (replacement, _) \<Rightarrow> (2, Some signum, Some replacement))
               else (1, Some signum, None)))"

text \<open>
  \<^verbatim>\<open>sscanf(arg, "%d:%n", &signum, &position)\<close>: the count returned, the number and the
  position after the colon, \<open>None\<close> for a variable that was not assigned. Without a
  colon after the number the count is 1 all the same and \<^verbatim>\<open>position\<close> stays unassigned.
\<close>

definition sscanf_d_n :: "string \<Rightarrow> int \<times> int option \<times> int option" where
  "sscanf_d_n arg =
     (case scan_d arg of
        None \<Rightarrow> (0, None, None)
      | Some (signum, rest) \<Rightarrow>
          (case rest of
             [] \<Rightarrow> (1, Some signum, None)
           | c # rest1 \<Rightarrow>
               if c = CHR '':'' then (1, Some signum, Some (int (length arg) - int (length rest1)))
               else (1, Some signum, None)))"

subsection \<open>Parsing the command line\<close>

text \<open>Of the usage texts the model keeps the first line.\<close>

definition print_help :: "string \<Rightarrow> effect list" where
  "print_help argv0 =
     [Stderr ''dumb-init v%sUsage: %s [option] command [[arg] ...]'' [VERSION, Str argv0]]"

definition print_rewrite_signum_help :: "effect list \<times> globals res" where
  "print_rewrite_signum_help =
     ([Stderr ''Usage: -r option takes <signum>:<signum>, where <signum> is between 0 and %d.''
         [Num MAXSIG]],
      Exit 1)"

definition print_action_help :: "effect list \<times> globals res" where
  "print_action_help =
     ([Stderr ''Usage: -a option takes <signum>:<path>, where <signum> is between 1 and %d.''
         [Num MAXSIG]],
      Exit 1)"

text \<open>The loop of \<^verbatim>\<open>parse_rewrite_signum\<close> that fills the slots from \<open>i\<close> to \<^verbatim>\<open>MAXSIG\<close>.\<close>

function rewrite_all :: "int \<Rightarrow> int \<Rightarrow> int list \<Rightarrow> int list" where
  "rewrite_all i replacement t =
     (if i \<le> MAXSIG then rewrite_all (i + 1) replacement (t[nat i := replacement]) else t)"
  by pat_completeness auto
termination
  by (relation "measure (\<lambda>(i, r, t). nat (MAXSIG + 1 - i))") (auto simp: MAXSIG_def)

declare rewrite_all.simps [simp del]

definition parse_rewrite_signum :: "string \<Rightarrow> globals \<Rightarrow> effect list \<times> globals res" where
  "parse_rewrite_signum arg g =
     (case sscanf_d_d arg of
        (n, Some signum, Some replacement) \<Rightarrow>
          if n = 2 \<and> (signum \<ge> 0 \<and> signum \<le> MAXSIG) \<and>
             (replacement \<ge> 0 \<and> replacement \<le> MAXSIG)
          then
            if signum = 0 then
              ([], Return (g\<lparr>signal_rewrite := rewrite_all 0 replacement (signal_rewrite g)\<rparr>))
            else
              ([], Return (g\<lparr>signal_rewrite := (signal_rewrite g)[nat signum := replacement]\<rparr>))
          else print_rewrite_signum_help
      | _ \<Rightarrow> print_rewrite_signum_help)"

text \<open>
  \<^verbatim>\<open>parse_action\<close> stores the text after the colon, \<^verbatim>\<open>&(arg[position])\<close>. When the
  argument has no colon after the number, \<^verbatim>\<open>position\<close> was never assigned and the C
  program reads it all the same.
\<close>

definition parse_action :: "string \<Rightarrow> globals \<Rightarrow> effect list \<times> globals res" where
  "parse_action arg g =
     (case sscanf_d_n arg of
        (status, Some signum, position) \<Rightarrow>
          if status = 1 \<and> (signum \<ge> 0 \<and> signum \<le> MAXSIG) then
            (case position of
               Some pos \<Rightarrow>
                 (DEBUG g ''signal action: %d, position %d'' [Num signum, Num pos],
                  Return (g\<lparr>signal_action := (signal_action g)[nat signum := drop (nat pos) arg],
                            signal_rewrite := (signal_rewrite g)[nat signum := - 2]\<rparr>))
             | None \<Rightarrow> ([], Undefined))
          else print_action_help
      | _ \<Rightarrow> print_action_help)"

definition set_rewrite_to_sigstop_if_not_defined :: "int \<Rightarrow> globals \<Rightarrow> globals" where
  "set_rewrite_to_sigstop_if_not_defined signum g =
     (if signal_rewrite g ! nat signum = - 1
      then g\<lparr>signal_rewrite := (signal_rewrite g)[nat signum := SIGSTOP]\<rparr>
      else g)"

text \<open>
  \<^verbatim>\<open>getopt_long\<close> belongs to the C library: the command line is taken as what it
  yields, the option characters with their arguments in order (any character the
  \<^verbatim>\<open>switch\<close> does not list stands for its error result), the words from \<^verbatim>\<open>optind\<close> on, and
  what \<^verbatim>\<open>getenv\<close> answers for the two variables.
\<close>

record cmdline =
  argv0 :: string
  options :: "(char \<times> string) list"
  command :: "string list"
  DUMB_INIT_DEBUG :: "string option"
  DUMB_INIT_SETSID :: "string option"

fun getopt_loop :: "string \<Rightarrow> (char \<times> string) list \<Rightarrow> globals \<Rightarrow> effect list \<times> globals res" where
  "getopt_loop a0 [] g = ([], Return g)"
| "getopt_loop a0 ((opt, optarg) # rest) g =
     (if opt = CHR ''h'' then (print_help a0, Exit 0)
      else if opt = CHR ''v'' then getopt_loop a0 rest (g\<lparr>debug := True\<rparr>)
      else if opt = CHR ''V'' then ([Stderr ''dumb-init v%s'' [VERSION]], Exit 0)
      else if opt = CHR ''c'' then getopt_loop a0 rest (g\<lparr>use_setsid := False\<rparr>)
      else if opt = CHR ''r'' then
        (case parse_rewrite_signum optarg g of
           (es, Return g1) \<Rightarrow> (let (es', r) = getopt_loop a0 rest g1 in (es @ es', r))
         | (es, r) \<Rightarrow> (es, r))
      else if opt = CHR ''a'' then
        (case parse_action optarg g of
           (es, Return g1) \<Rightarrow> (let (es', r) = getopt_loop a0 rest g1 in (es @ es', r))
         | (es, r) \<Rightarrow> (es, r))
      else if opt = CHR ''b'' then getopt_loop a0 rest (g\<lparr>survive_bereaving := True\<rparr>)
      else (PRINTERR ''Error while parsing arguments.'' [], Exit 1))"

definition parse_command :: "cmdline \<Rightarrow> globals \<Rightarrow> effect list \<times> (globals \<times> string list) res" where
  "parse_command c g =
     bind (getopt_loop (argv0 c) (options c) g) (\<lambda>g1.
       if command c = [] then
         ([Stderr ''Usage: %s [option] program [args]'' [Str (argv0 c), Str (argv0 c)]], Exit 1)
       else
         (let g2 = (if DUMB_INIT_DEBUG c = Some ''1'' then g1\<lparr>debug := True\<rparr> else g1);
              d2 = (if DUMB_INIT_DEBUG c = Some ''1'' then DEBUG g2 ''Running in debug mode.'' [] else []);
              g3 = (if DUMB_INIT_SETSID c = Some ''0'' then g2\<lparr>use_setsid := False\<rparr> else g2);
              d3 = (if DUMB_INIT_SETSID c = Some ''0'' then DEBUG g3 ''Not running in setsid mode.'' [] else []);
              g4 = (if use_setsid g3 then
                      set_rewrite_to_sigstop_if_not_defined SIGTTIN
                        (set_rewrite_to_sigstop_if_not_defined SIGTTOU
                          (set_rewrite_to_sigstop_if_not_defined SIGTSTP g3))
                    else g3)
          in (d2 @ d3, Return (g4, command c))))"

subsection \<open>Concrete situations\<close>

text \<open>
  A wait status of a normal exit and one of a death by signal, a supervisor whose
  direct child has PID 100, the same with the option \<^verbatim>\<open>-a '10:echo hit'\<close> applied, and a
  kernel with nothing to reap, a \<^verbatim>\<open>fork\<close> that gives PID 200 and two processes in
  \<^verbatim>\<open>/proc\<close>.
\<close>

definition exited :: "int \<Rightarrow> wstatus" where
  "exited c = \<lparr>WIFEXITED = True, WEXITSTATUS = c, WIFSIGNALED = False, WTERMSIG = 0\<rparr>"

definition signaled :: "int \<Rightarrow> wstatus" where
  "signaled k = \<lparr>WIFEXITED = False, WEXITSTATUS = 0, WIFSIGNALED = True, WTERMSIG = k\<rparr>"

definition running_globals :: globals where
  "running_globals = init_globals\<lparr>child_pid := 100\<rparr>"

definition action_globals :: globals where
  "action_globals =
     running_globals
       \<lparr>signal_action := (signal_action running_globals)[10 := ''echo hit''],
        signal_rewrite := (signal_rewrite running_globals)[10 := - 2]\<rparr>"

definition quiet_env :: env where
  "quiet_env =
     \<lparr>waitpid_results = [],
      fork_result = 200,
      execlp_error = None,
      proc_entries = Some [''1'', ''200'', ''self''],
      getpid = 1\<rparr>"

text \<open>
  The supervisor after its direct child was reaped in the mode that survives it; the
  supervisor with \<^verbatim>\<open>-v -r 15:0\<close> applied; a command line without options.
\<close>

definition bereaved_globals :: globals where
  "bereaved_globals = running_globals\<lparr>survive_bereaving := True, bereaved := True\<rparr>"

definition ignoring_globals :: globals where
  "ignoring_globals =
     running_globals\<lparr>signal_rewrite := (signal_rewrite running_globals)[15 := 0], debug := True\<rparr>"

definition sleep_cmdline :: cmdline where
  "sleep_cmdline =
     \<lparr>argv0 = ''dumb-init'',
      options = [],
      command = [''sleep'', ''60''],
      DUMB_INIT_DEBUG = None,
      DUMB_INIT_SETSID = None\<rparr>"

subsection \<open>Notions for the properties\<close>

text \<open>The calls of \<^verbatim>\<open>kill\<close> among the effects, as pairs of target and signal number.\<close>

fun kills :: "effect list \<Rightarrow> (int \<times> int) list" where
  "kills [] = []"
| "kills (Kill pid sig # es) = (pid, sig) # kills es"
| "kills (_ # es) = kills es"

text \<open>
  A result of \<^verbatim>\<open>waitpid\<close> for a terminated process that is not the direct child, and the
  exit status the handler computes from a wait status.
\<close>

definition other_descendant :: "globals \<Rightarrow> int \<times> wstatus \<Rightarrow> bool" where
  "other_descendant g w =
     (0 < fst w \<and> fst w \<noteq> child_pid g \<and> (WIFEXITED (snd w) \<or> WIFSIGNALED (snd w)))"

definition computed_code :: "wstatus \<Rightarrow> int" where
  "computed_code st = (if WIFEXITED st then WEXITSTATUS st else 128 + WTERMSIG st)"

text \<open>The supervisor with \<^verbatim>\<open>-a '15:echo bye'\<close> applied.\<close>

definition term_action_globals :: globals where
  "term_action_globals =
     running_globals
       \<lparr>signal_action := (signal_action running_globals)[15 := ''echo bye''],
        signal_rewrite := (signal_rewrite running_globals)[15 := - 2]\<rparr>"

text \<open>Both tables have the size the C declarations give them.\<close>

definition tables_sized :: "globals \<Rightarrow> bool" where
  "tables_sized g = (length (signal_rewrite g) = 65 \<and> length (signal_action g) = 65)"

text \<open>
  An argument of \<^verbatim>\<open>-r\<close> together with the signal and the replacement it is scanned as,
  for a single rewrite: the signal from 1 to \<^verbatim>\<open>MAXSIG\<close>, the replacement from 0.
\<close>

definition valid_single :: "string \<times> int \<times> int \<Rightarrow> bool" where
  "valid_single x =
     (sscanf_d_d (fst x) = (2, Some (fst (snd x)), Some (snd (snd x))) \<and>
      1 \<le> fst (snd x) \<and> fst (snd x) \<le> MAXSIG \<and>
      0 \<le> snd (snd x) \<and> snd (snd x) \<le> MAXSIG)"

text \<open>
  The table of the spec's words, to compare the parser with: initialised with \<open>R\<close> in
  every slot and then overwritten, in order, at each signal with its replacement.
\<close>

fun overwrite :: "(int \<times> int) list \<Rightarrow> int list \<Rightarrow> int list" where
  "overwrite [] t = t"
| "overwrite ((s, r) # ps) t = overwrite ps (t[nat s := r])"

definition initialised_then_overwritten :: "int \<Rightarrow> (int \<times> int) list \<Rightarrow> int list" where
  "initialised_then_overwritten R ps = overwrite ps (replicate (nat (MAXSIG + 1)) R)"

text \<open>
  An option as \<^verbatim>\<open>getopt_long\<close> yields it that, if it is \<^verbatim>\<open>-a\<close>, has some text after the
  colon of its argument; the tables in which every slot set to ACTION has a command;
  and the two entries of the tables at an index once \<^verbatim>\<open>parse_command\<close> has returned.
\<close>

definition action_has_command :: "char \<times> string \<Rightarrow> bool" where
  "action_has_command x =
     (if fst x = CHR ''a'' then
        (case sscanf_d_n (snd x) of
           (_, _, Some pos) \<Rightarrow> drop (nat pos) (snd x) \<noteq> []
         | (_, _, None) \<Rightarrow> False)
      else True)"

definition actions_have_commands :: "globals \<Rightarrow> bool" where
  "actions_have_commands g =
     (\<forall>i < 65. signal_rewrite g ! i = ACTION \<longrightarrow> signal_action g ! i \<noteq> [])"

definition parsed_slot :: "cmdline \<Rightarrow> nat \<Rightarrow> (int \<times> string) option" where
  "parsed_slot c i =
     (case snd (parse_command c init_globals) of
        Return (g, cmd) \<Rightarrow> Some (signal_rewrite g ! i, signal_action g ! i)
      | Exit n \<Rightarrow> None
      | Exec p a \<Rightarrow> None
      | Abort \<Rightarrow> None
      | Undefined \<Rightarrow> None)"

text \<open>
  For the order of the options: an action option for a signal, a rewrite option that
  writes the slot of a signal (a rewrite of that signal, or the bulk rewrite), and the
  lists of options in which no such rewrite comes after an action option for the signal.
\<close>

definition action_for :: "int \<Rightarrow> char \<times> string \<Rightarrow> bool" where
  "action_for signum x =
     (fst x = CHR ''a'' \<and>
      (case sscanf_d_n (snd x) of
         (_, Some s, _) \<Rightarrow> s = signum
       | (_, None, _) \<Rightarrow> False))"

definition rewrite_of :: "int \<Rightarrow> char \<times> string \<Rightarrow> bool" where
  "rewrite_of signum x =
     (fst x = CHR ''r'' \<and>
      (case sscanf_d_d (snd x) of
         (_, Some s, _) \<Rightarrow> s = signum \<or> s = 0
       | (_, None, _) \<Rightarrow> False))"

definition no_rewrite_after_action :: "int \<Rightarrow> (char \<times> string) list \<Rightarrow> bool" where
  "no_rewrite_after_action signum opts =
     list_all (\<lambda>x. \<not> rewrite_of signum x) (dropWhile (\<lambda>x. \<not> action_for signum x) opts)"

section \<open>Properties\<close>

subsection \<open>Auxiliary facts\<close>

lemma translate_signal_action:
  "1 \<le> signum \<Longrightarrow> signum \<le> MAXSIG \<Longrightarrow> signal_rewrite g ! nat signum = ACTION \<Longrightarrow>
   translate_signal g signum = (DEBUG g ''Translating signal %d to %d.'' [Num signum, Num (- 2)], - 2)"
  by (simp add: translate_signal_def ACTION_def Let_def)

text \<open>Forwarding does not read the flag \<^verbatim>\<open>bereaved\<close>.\<close>

lemma DEBUG_bereaved: "DEBUG (g\<lparr>bereaved := b\<rparr>) fmt args = DEBUG g fmt args"
  by (simp add: DEBUG_def)

lemma translate_signal_bereaved:
  "translate_signal (g\<lparr>bereaved := b\<rparr>) s = translate_signal g s"
  by (simp add: translate_signal_def DEBUG_bereaved Let_def)

lemma do_action_bereaved: "do_action e (g\<lparr>bereaved := b\<rparr>) s = do_action e g s"
  by (simp add: do_action_def DEBUG_bereaved Let_def split: option.split)

lemma forward_signal_bereaved:
  "forward_signal e (g\<lparr>bereaved := b\<rparr>) s = forward_signal e g s"
  by (simp add: forward_signal_def translate_signal_bereaved do_action_bereaved DEBUG_bereaved
      split: prod.split)

text \<open>The reaping loop changes no global but \<^verbatim>\<open>bereaved\<close>.\<close>

lemma reap_children_frame:
  "reap_children e g ws = (es, Return g') \<Longrightarrow> g' = g\<lparr>bereaved := bereaved g'\<rparr>"
proof (induction ws arbitrary: g es)
  case Nil
  then show ?case by simp
next
  case (Cons w ws)
  obtain killed_pid status where w: "w = (killed_pid, status)" by (cases w)
  show ?case
  proof (cases "killed_pid > 0")
    case False
    with Cons.prems w show ?thesis by simp
  next
    case True
    obtain d r where wes: "wait_exit_status g killed_pid status = (d, r)"
      by (cases "wait_exit_status g killed_pid status")
    show ?thesis
    proof (cases r)
      case (Return exit_status)
      show ?thesis
      proof (cases "killed_pid = child_pid g")
        case other: False
        obtain es1 r1 where rec: "reap_children e g ws = (es1, r1)"
          by (cases "reap_children e g ws")
        with Cons.prems w True wes Return other have "r1 = Return g'" by simp
        with rec Cons.IH show ?thesis by simp
      next
        case child: True
        show ?thesis
        proof (cases "survive_bereaving g")
          case False
          obtain f rf where fw: "forward_signal e (g\<lparr>bereaved := True\<rparr>) SIGTERM = (f, rf)"
            by (cases "forward_signal e (g\<lparr>bereaved := True\<rparr>) SIGTERM")
          with Cons.prems w True wes Return child False show ?thesis
            by (cases rf) (simp_all add: say_def)
        next
          case surv: True
          obtain es1 r1 where rec: "reap_children e (g\<lparr>bereaved := True\<rparr>) ws = (es1, r1)"
            by (cases "reap_children e (g\<lparr>bereaved := True\<rparr>) ws")
          with Cons.prems w True wes Return child surv have "r1 = Return g'" by simp
          with rec Cons.IH [of "g\<lparr>bereaved := True\<rparr>" es1]
          have "g' = g\<lparr>bereaved := True\<rparr>\<lparr>bereaved := bereaved g'\<rparr>" by simp
          then show ?thesis by simp
        qed
      qed
    qed (use Cons.prems w True wes in simp_all)
  qed
qed

subsection \<open>A failed fork for an action\<close>

text \<open>
  Claim C10. When a signal other than SIGCHLD is configured as an action and the
  \<^verbatim>\<open>fork\<close> for the action fails, \<^verbatim>\<open>do_action\<close> writes "Unable to fork. Exiting." to the
  standard error and ends the supervisor with \<^verbatim>\<open>exit(1)\<close>; the handler ends the same
  way, having sent no signal, and does not return to the signal pump.
\<close>

theorem action_fork_failure_exits:
  assumes "1 \<le> signum" and "signum \<le> MAXSIG" and "signum \<noteq> SIGCHLD"
    and "signal_rewrite g ! nat signum = ACTION" and "fork_result e < 0"
  shows "do_action e g signum =
           (DEBUG g ''Action for signal %d: running %s''
              [Num signum, Str (signal_action g ! nat signum)] @
            [Fork, Stderr ''Unable to fork. Exiting.'' []],
            Exit 1) \<and>
         handle_signal e g signum =
           (DEBUG g ''Received signal %d.'' [Num signum] @
            DEBUG g ''Translating signal %d to %d.'' [Num signum, Num ACTION] @
            DEBUG g ''Action for signal %d: running %s''
              [Num signum, Str (signal_action g ! nat signum)] @
            [Fork, Stderr ''Unable to fork. Exiting.'' []],
            Exit 1)"
proof -
  have a: "do_action e g signum =
             (DEBUG g ''Action for signal %d: running %s''
                [Num signum, Str (signal_action g ! nat signum)] @
              [Fork, Stderr ''Unable to fork. Exiting.'' []],
              Exit 1)"
    using assms(5) by (simp add: do_action_def PRINTERR_def Let_def)
  have f: "forward_signal e g signum =
             (DEBUG g ''Translating signal %d to %d.'' [Num signum, Num ACTION] @
              DEBUG g ''Action for signal %d: running %s''
                [Num signum, Str (signal_action g ! nat signum)] @
              [Fork, Stderr ''Unable to fork. Exiting.'' []],
              Exit 1)"
    using assms(1,2,4) by (simp add: forward_signal_def translate_signal_action a ACTION_def)
  show ?thesis
    using assms(3) by (simp add: a handle_signal_def f say_def)
qed

theorem action_fork_failure_exits_witness:
  "do_action (quiet_env\<lparr>fork_result := - 1\<rparr>) action_globals 10 =
     ([Fork, Stderr ''Unable to fork. Exiting.'' []], Exit 1) \<and>
   handle_signal (quiet_env\<lparr>fork_result := - 1\<rparr>) action_globals 10 =
     ([Fork, Stderr ''Unable to fork. Exiting.'' []], Exit 1)"
proof -
  have range: "(1::int) \<le> 10" "(10::int) \<le> MAXSIG" "(10::int) \<noteq> SIGCHLD"
    by (simp_all add: MAXSIG_def SIGCHLD_def)
  have slot: "signal_rewrite action_globals ! nat 10 = ACTION"
    by (simp add: action_globals_def running_globals_def init_globals_def ACTION_def)
  have failed: "fork_result (quiet_env\<lparr>fork_result := - 1\<rparr>) < 0"
    by simp
  have quiet: "\<not> debug action_globals"
    by (simp add: action_globals_def running_globals_def init_globals_def)
  from action_fork_failure_exits [OF range slot failed] quiet show ?thesis
    by (simp add: DEBUG_def)
qed

subsection \<open>The direct child's PID across an action\<close>

lemma forward_signal_kill:
  assumes "snd (translate_signal g s) \<noteq> - 2" and "snd (translate_signal g s) \<noteq> - 1"
  shows "forward_signal e g s =
           (fst (translate_signal g s) @
            [Kill (if use_setsid g then - child_pid g else child_pid g) (snd (translate_signal g s))] @
            DEBUG g ''Forwarded signal %d to children.'' [Num (snd (translate_signal g s))],
            Return ())"
  using assms by (cases "translate_signal g s") (simp add: forward_signal_def)

lemma handle_signal_frame:
  assumes "handle_signal e g signum = (es, Return g')"
  shows "g' = g\<lparr>bereaved := bereaved g'\<rparr>"
proof (cases "signum = SIGCHLD")
  case True
  obtain w r where rc: "reap_children e g (waitpid_results e) = (w, r)"
    by (cases "reap_children e g (waitpid_results e)")
  show ?thesis
  proof (cases r)
    case (Return g1)
    from rc Return have g1: "g1 = g\<lparr>bereaved := bereaved g1\<rparr>"
      by (simp add: reap_children_frame)
    obtain p rp where pc: "process_count e g1 = (p, rp)"
      by (cases "process_count e g1")
    from assms True rc Return pc have "g' = g1"
      by (cases rp) (simp_all add: handle_signal_def say_def split: if_splits)
    with g1 show ?thesis by simp
  qed (use assms True rc in \<open>simp_all add: handle_signal_def say_def\<close>)
next
  case False
  obtain f r where fw: "forward_signal e g signum = (f, r)"
    by (cases "forward_signal e g signum")
  from assms False fw have "g' = g"
    by (cases r) (simp_all add: handle_signal_def say_def split: if_splits)
  then show ?thesis by simp
qed

text \<open>
  Claim C9. For a signal configured as an action, spawning the action leaves the
  recorded PID of the direct child as it was: when the signal is not SIGCHLD and the
  \<^verbatim>\<open>fork\<close> succeeds, the handler forks once and returns with the globals unchanged; and
  whenever the handler returns, \<^verbatim>\<open>child_pid\<close> and \<^verbatim>\<open>use_setsid\<close> are what they were and
  forwarding any later signal does exactly what it would have done before, so it still
  addresses the original direct child.
\<close>

theorem action_keeps_child_pid:
  assumes "1 \<le> signum" and "signum \<le> MAXSIG"
    and "signal_rewrite g ! nat signum = ACTION"
  shows "(signum \<noteq> SIGCHLD \<and> 0 < fork_result e \<longrightarrow>
            handle_signal e g signum =
              (DEBUG g ''Received signal %d.'' [Num signum] @
               DEBUG g ''Translating signal %d to %d.'' [Num signum, Num ACTION] @
               DEBUG g ''Action for signal %d: running %s''
                 [Num signum, Str (signal_action g ! nat signum)] @
               [Fork] @
               (if signum = SIGTSTP \<or> signum = SIGTTOU \<or> signum = SIGTTIN
                then DEBUG g ''Suspending self due to TTY signal.'' [] @ [Kill (getpid e) SIGSTOP]
                else []),
               Return g)) \<and>
         (\<forall>es g'. handle_signal e g signum = (es, Return g') \<longrightarrow>
            child_pid g' = child_pid g \<and> use_setsid g' = use_setsid g \<and>
            (\<forall>e2 s2. forward_signal e2 g' s2 = forward_signal e2 g s2))"
proof -
  have first: "handle_signal e g signum =
              (DEBUG g ''Received signal %d.'' [Num signum] @
               DEBUG g ''Translating signal %d to %d.'' [Num signum, Num ACTION] @
               DEBUG g ''Action for signal %d: running %s''
                 [Num signum, Str (signal_action g ! nat signum)] @
               [Fork] @
               (if signum = SIGTSTP \<or> signum = SIGTTOU \<or> signum = SIGTTIN
                then DEBUG g ''Suspending self due to TTY signal.'' [] @ [Kill (getpid e) SIGSTOP]
                else []),
               Return g)"
    if other: "signum \<noteq> SIGCHLD" and forked: "0 < fork_result e"
  proof -
    have a: "do_action e g signum =
               (DEBUG g ''Action for signal %d: running %s''
                  [Num signum, Str (signal_action g ! nat signum)] @ [Fork],
                Return ())"
      using forked by (simp add: do_action_def Let_def)
    have f: "forward_signal e g signum =
               (DEBUG g ''Translating signal %d to %d.'' [Num signum, Num ACTION] @
                DEBUG g ''Action for signal %d: running %s''
                  [Num signum, Str (signal_action g ! nat signum)] @ [Fork],
                Return ())"
      using assms by (simp add: forward_signal_def translate_signal_action a ACTION_def)
    show ?thesis
      using other by (simp add: handle_signal_def f say_def)
  qed
  have second: "child_pid g' = child_pid g \<and> use_setsid g' = use_setsid g \<and>
      (\<forall>e2 s2. forward_signal e2 g' s2 = forward_signal e2 g s2)"
    if ret: "handle_signal e g signum = (es, Return g')" for es g'
  proof -
    from ret have eq: "g' = g\<lparr>bereaved := bereaved g'\<rparr>"
      by (rule handle_signal_frame)
    have "child_pid (g\<lparr>bereaved := bereaved g'\<rparr>) = child_pid g"
      and "use_setsid (g\<lparr>bereaved := bereaved g'\<rparr>) = use_setsid g"
      and "forward_signal e2 (g\<lparr>bereaved := bereaved g'\<rparr>) s2 = forward_signal e2 g s2" for e2 s2
      by (simp_all add: forward_signal_bereaved)
    with eq show ?thesis by metis
  qed
  from first second show ?thesis by blast
qed

theorem action_keeps_child_pid_witness:
  "handle_signal quiet_env action_globals 10 = ([Fork], Return action_globals) \<and>
   child_pid action_globals = 100 \<and>
   forward_signal quiet_env action_globals 15 = ([Kill (- 100) 15], Return ())"
proof -
  have range: "(1::int) \<le> 10" "(10::int) \<le> MAXSIG"
    by (simp_all add: MAXSIG_def)
  have slot: "signal_rewrite action_globals ! nat 10 = ACTION"
    by (simp add: action_globals_def running_globals_def init_globals_def ACTION_def)
  have side: "(10::int) \<noteq> SIGCHLD \<and> 0 < fork_result quiet_env"
    by (simp add: SIGCHLD_def quiet_env_def)
  have quiet: "\<not> debug action_globals"
    by (simp add: action_globals_def running_globals_def init_globals_def)
  have tty: "\<not> ((10::int) = SIGTSTP \<or> (10::int) = SIGTTOU \<or> (10::int) = SIGTTIN)"
    by (simp add: SIGTSTP_def SIGTTOU_def SIGTTIN_def)
  from action_keeps_child_pid [OF range slot, of quiet_env] side quiet tty
  have "handle_signal quiet_env action_globals 10 = ([Fork], Return action_globals)"
    by (simp add: DEBUG_def)
  moreover have "child_pid action_globals = 100"
    by (simp add: action_globals_def running_globals_def)
  moreover have "forward_signal quiet_env action_globals 15 = ([Kill (- 100) 15], Return ())"
    by (simp add: forward_signal_def translate_signal_def action_globals_def running_globals_def
        init_globals_def MAXSIG_def DEBUG_def)
  ultimately show ?thesis by simp
qed

subsection \<open>A failed enumeration of the processes\<close>

text \<open>
  Claim C1. The claim is that a failed enumeration counts as "still alive". In the
  code \<^verbatim>\<open>process_count\<close> answers \<^verbatim>\<open>-1\<close> when \<^verbatim>\<open>/proc\<close> cannot be opened and the handler
  tests \<^verbatim>\<open>pc <= 1\<close>: a bereaved supervisor in the surviving mode that handles SIGCHLD (or
  the heartbeat) while \<^verbatim>\<open>/proc\<close> cannot be opened prints the error and ends with
  \<^verbatim>\<open>exit(0)\<close>, tracing "No process left, exitting." when the traces are on.
\<close>

theorem enumeration_failure_exits:
  "handle_signal (quiet_env\<lparr>proc_entries := None\<rparr>) bereaved_globals SIGCHLD =
     ([Stderr ''Could not open /proc.'' []], Exit 0) \<and>
   handle_signal (quiet_env\<lparr>proc_entries := None\<rparr>) (bereaved_globals\<lparr>debug := True\<rparr>) SIGCHLD =
     ([Stderr ''Received signal %d.'' [Num 17],
       Stderr ''Could not open /proc.'' [],
       Stderr ''Process count: %d'' [Num (- 1)],
       Stderr ''No process left, exitting.'' []],
      Exit 0)"
  by code_simp

subsection \<open>A signal rewritten to 0\<close>

text \<open>
  Claim C4. The claim is that no \<^verbatim>\<open>kill\<close> is issued for a signal whose slot holds 0. In
  the code \<^verbatim>\<open>forward_signal\<close> compares the translated number with \<^verbatim>\<open>-1\<close>, which
  \<^verbatim>\<open>translate_signal\<close> never returns for a signal from 1 to \<^verbatim>\<open>MAXSIG\<close>: with \<^verbatim>\<open>-r 15:0\<close>
  the handler of signal 15 calls \<^verbatim>\<open>kill\<close> on the child's group with signal number 0 and
  traces "Forwarded signal 0 to children", never reaching the branch "Not forwarding".
\<close>

theorem ignored_signal_reaches_kill:
  "parse_rewrite_signum ''15:0'' (running_globals\<lparr>debug := True\<rparr>) = ([], Return ignoring_globals) \<and>
   handle_signal quiet_env ignoring_globals SIGTERM =
     ([Stderr ''Received signal %d.'' [Num 15],
       Stderr ''Translating signal %d to %d.'' [Num 15, Num IGNORE],
       Kill (- 100) 0,
       Stderr ''Forwarded signal %d to children.'' [Num 0]],
      Return ignoring_globals)"
  by code_simp

subsection \<open>The action option for signal 0\<close>

text \<open>
  Claim C8. The claim is that the action option accepts the signals 1 to \<^verbatim>\<open>MAXSIG\<close> only,
  as the usage text of \<^verbatim>\<open>print_action_help\<close> says. In the code \<^verbatim>\<open>parse_action\<close> tests
  \<^verbatim>\<open>signum >= 0\<close>: the option \<^verbatim>\<open>-a '0:echo hi'\<close> is accepted, fills slot 0 of both tables,
  and parsing goes on to return the command.
\<close>

theorem action_accepts_signal_zero:
  "parse_action ''0:echo hi'' init_globals =
     ([], Return (init_globals\<lparr>signal_action := (signal_action init_globals)[0 := ''echo hi''],
                               signal_rewrite := (signal_rewrite init_globals)[0 := ACTION]\<rparr>)) \<and>
   snd (parse_command (sleep_cmdline\<lparr>options := [(CHR ''a'', ''0:echo hi'')]\<rparr>) init_globals) =
     Return (init_globals\<lparr>signal_action := (signal_action init_globals)[0 := ''echo hi''],
                          signal_rewrite := (signal_rewrite init_globals)
                             [0 := ACTION, 20 := SIGSTOP, 21 := SIGSTOP, 22 := SIGSTOP]\<rparr>,
             [''sleep'', ''60''])"
  by code_simp

subsection \<open>The direct child is reaped\<close>

lemma kills_append: "kills (xs @ ys) = kills xs @ kills ys"
  by (induction xs rule: kills.induct) simp_all

lemma kills_DEBUG: "kills (DEBUG g fmt args) = []"
  by (simp add: DEBUG_def PRINTERR_def)

lemma wait_exit_status_valid:
  assumes "WIFEXITED st \<or> WIFSIGNALED st"
  shows "snd (wait_exit_status g pid st) = Return (computed_code st)"
    and "kills (fst (wait_exit_status g pid st)) = []"
  using assms by (auto simp: wait_exit_status_def computed_code_def Let_def kills_DEBUG)

lemma reap_children_others:
  assumes "list_all (other_descendant g) pre"
  shows "snd (reap_children e g (pre @ ws)) = snd (reap_children e g ws) \<and>
         kills (fst (reap_children e g (pre @ ws))) = kills (fst (reap_children e g ws))"
  using assms
proof (induction pre)
  case Nil
  then show ?case by simp
next
  case (Cons w pre)
  obtain pid st where w: "w = (pid, st)" by (cases w)
  from Cons.prems w have pid: "0 < pid" "pid \<noteq> child_pid g" and st: "WIFEXITED st \<or> WIFSIGNALED st"
    by (simp_all add: other_descendant_def)
  from Cons have IH: "snd (reap_children e g (pre @ ws)) = snd (reap_children e g ws)"
    "kills (fst (reap_children e g (pre @ ws))) = kills (fst (reap_children e g ws))"
    by simp_all
  obtain d where d: "wait_exit_status g pid st = (d, Return (computed_code st))" and kd: "kills d = []"
    using wait_exit_status_valid [OF st, of g pid] by (cases "wait_exit_status g pid st") simp
  obtain es r where rec: "reap_children e g (pre @ ws) = (es, r)"
    by (cases "reap_children e g (pre @ ws)")
  from w pid d rec have "reap_children e g ((w # pre) @ ws) = (d @ es, r)"
    by simp
  with IH rec kd show ?case by (simp add: kills_append)
qed

lemma translate_signal_SIGTERM:
  "translate_signal g SIGTERM =
     (if signal_rewrite g ! nat SIGTERM = UNSET then ([], SIGTERM)
      else (DEBUG g ''Translating signal %d to %d.'' [Num SIGTERM, Num (signal_rewrite g ! nat SIGTERM)],
            signal_rewrite g ! nat SIGTERM))"
  by (simp add: translate_signal_def SIGTERM_def MAXSIG_def UNSET_def Let_def)

lemma reap_children_direct:
  assumes child: "0 < child_pid g" and st: "WIFEXITED st \<or> WIFSIGNALED st"
    and quit: "\<not> survive_bereaving g"
    and fw: "forward_signal e g SIGTERM = (f, Return ())"
  shows "snd (reap_children e g ((child_pid g, st) # rest)) = Exit (computed_code st) \<and>
         kills (fst (reap_children e g ((child_pid g, st) # rest))) = kills f"
proof -
  obtain d where d: "wait_exit_status g (child_pid g) st = (d, Return (computed_code st))"
    and kd: "kills d = []"
    using wait_exit_status_valid [OF st, of g "child_pid g"]
    by (cases "wait_exit_status g (child_pid g) st") simp
  from fw have fw1: "forward_signal e (g\<lparr>bereaved := True\<rparr>) SIGTERM = (f, Return ())"
    by (simp add: forward_signal_bereaved)
  from child d quit fw1
  have "reap_children e g ((child_pid g, st) # rest) =
          (d @ f @ DEBUG (g\<lparr>bereaved := True\<rparr>) ''Child exited with status %d. Goodbye.''
             [Num (computed_code st)],
           Exit (computed_code st))"
    by (simp add: say_def)
  with kd show ?thesis by (simp add: kills_append kills_DEBUG)
qed

lemma handle_signal_SIGCHLD_exit:
  assumes "snd (reap_children e g (waitpid_results e)) = Exit n"
  shows "snd (handle_signal e g SIGCHLD) = Exit n \<and>
         kills (fst (handle_signal e g SIGCHLD)) = kills (fst (reap_children e g (waitpid_results e)))"
  using assms
  by (cases "reap_children e g (waitpid_results e)")
     (simp add: handle_signal_def say_def kills_append kills_DEBUG)

lemma bereavement_exit:
  assumes reaped: "waitpid_results e = pre @ (child_pid g, st) # rest"
    and others: "list_all (other_descendant g) pre"
    and child: "0 < child_pid g"
    and st: "WIFEXITED st \<or> WIFSIGNALED st"
    and quit: "\<not> survive_bereaving g"
    and fw: "forward_signal e g SIGTERM = (f, Return ())"
  shows "snd (handle_signal e g SIGCHLD) = Exit (computed_code st) \<and>
         kills (fst (handle_signal e g SIGCHLD)) = kills f"
proof -
  from reap_children_direct [OF child st quit fw, of rest]
    reap_children_others [OF others, of e "(child_pid g, st) # rest"] reaped
  have "snd (reap_children e g (waitpid_results e)) = Exit (computed_code st)"
    and "kills (fst (reap_children e g (waitpid_results e))) = kills f"
    by simp_all
  with handle_signal_SIGCHLD_exit [of e g "computed_code st"] show ?thesis
    by simp
qed

lemma forward_signal_SIGTERM_returns:
  assumes "signal_rewrite g ! nat SIGTERM \<noteq> ACTION \<or> 0 < fork_result e"
  shows "\<exists>f. forward_signal e g SIGTERM = (f, Return ())"
proof (cases "signal_rewrite g ! nat SIGTERM = ACTION")
  case True
  with assms have forked: "0 < fork_result e" by simp
  have "translate_signal g SIGTERM =
          (DEBUG g ''Translating signal %d to %d.'' [Num SIGTERM, Num (- 2)], - 2)"
    using True by (intro translate_signal_action) (simp_all add: SIGTERM_def MAXSIG_def)
  moreover have "snd (do_action e g SIGTERM) = Return ()"
    using forked by (simp add: do_action_def Let_def)
  ultimately show ?thesis
    by (cases "do_action e g SIGTERM") (simp add: forward_signal_def)
next
  case False
  let ?R = "if signal_rewrite g ! nat SIGTERM = UNSET then SIGTERM else signal_rewrite g ! nat SIGTERM"
  have R: "snd (translate_signal g SIGTERM) = ?R"
    by (simp add: translate_signal_SIGTERM)
  from False have "?R \<noteq> - 2" "?R \<noteq> - 1"
    by (simp_all add: ACTION_def UNSET_def SIGTERM_def)
  with R have "snd (translate_signal g SIGTERM) \<noteq> - 2" "snd (translate_signal g SIGTERM) \<noteq> - 1"
    by simp_all
  from forward_signal_kill [OF this] show ?thesis by blast
qed

text \<open>
  Claim C2, amended. The claim has the supervisor send signal 15 itself, whatever the
  rewrite of 15, to the child's process group. In the code the handler calls
  \<^verbatim>\<open>forward_signal(SIGTERM)\<close>, the path of every forwarded signal. Amended: when
  \<^verbatim>\<open>waitpid\<close> gives the direct child (after any number of other descendants),
  \<^verbatim>\<open>survive_bereaving\<close> is false and slot 15 holds neither ACTION nor IGNORE, the handler
  calls \<^verbatim>\<open>kill\<close> exactly once, with the translation of signal 15 (15 when the slot is
  unset, the replacement signal in the slot otherwise) and with the target \<^verbatim>\<open>-child_pid\<close>
  when \<^verbatim>\<open>use_setsid\<close> is set and \<^verbatim>\<open>child_pid\<close> otherwise, and then exits with the computed
  code. What is sent when slot 15 holds IGNORE is left open here.
\<close>

theorem bereavement_forwards_sigterm:
  assumes reaped: "waitpid_results e = pre @ (child_pid g, st) # rest"
    and others: "list_all (other_descendant g) pre"
    and child: "0 < child_pid g"
    and st: "WIFEXITED st \<or> WIFSIGNALED st"
    and quit: "\<not> survive_bereaving g"
    and plain: "signal_rewrite g ! nat SIGTERM \<noteq> ACTION"
    and kept: "signal_rewrite g ! nat SIGTERM \<noteq> IGNORE"
  shows "snd (handle_signal e g SIGCHLD) = Exit (computed_code st) \<and>
         kills (fst (handle_signal e g SIGCHLD)) =
           [(if use_setsid g then - child_pid g else child_pid g,
             if signal_rewrite g ! nat SIGTERM = UNSET then SIGTERM
             else signal_rewrite g ! nat SIGTERM)]"
proof -
  let ?R = "if signal_rewrite g ! nat SIGTERM = UNSET then SIGTERM else signal_rewrite g ! nat SIGTERM"
  have R: "snd (translate_signal g SIGTERM) = ?R"
    by (simp add: translate_signal_SIGTERM)
  from plain have "?R \<noteq> - 2" "?R \<noteq> - 1"
    by (simp_all add: ACTION_def UNSET_def SIGTERM_def)
  with R have "snd (translate_signal g SIGTERM) \<noteq> - 2" "snd (translate_signal g SIGTERM) \<noteq> - 1"
    by simp_all
  from forward_signal_kill [OF this, of e] R
  obtain f where fw: "forward_signal e g SIGTERM = (f, Return ())"
    and kf: "kills f = [(if use_setsid g then - child_pid g else child_pid g, ?R)]"
    by (simp add: kills_append kills_DEBUG translate_signal_SIGTERM)
  from bereavement_exit [OF reaped others child st quit fw] kf show ?thesis
    by simp
qed

theorem bereavement_forwards_sigterm_witness:
  "snd (handle_signal (quiet_env\<lparr>waitpid_results := [(101, signaled 9), (100, exited 3), (102, exited 0)]\<rparr>)
          (running_globals\<lparr>signal_rewrite := (signal_rewrite running_globals)[15 := 2]\<rparr>) SIGCHLD) =
     Exit 3 \<and>
   kills (fst (handle_signal (quiet_env\<lparr>waitpid_results := [(101, signaled 9), (100, exited 3), (102, exited 0)]\<rparr>)
          (running_globals\<lparr>signal_rewrite := (signal_rewrite running_globals)[15 := 2]\<rparr>) SIGCHLD)) =
     [(- 100, 2)]"
proof -
  let ?e = "quiet_env\<lparr>waitpid_results := [(101, signaled 9), (100, exited 3), (102, exited 0)]\<rparr>"
  let ?g = "running_globals\<lparr>signal_rewrite := (signal_rewrite running_globals)[15 := 2]\<rparr>"
  have reaped: "waitpid_results ?e = [(101, signaled 9)] @ (child_pid ?g, exited 3) # [(102, exited 0)]"
    by (simp add: running_globals_def)
  have others: "list_all (other_descendant ?g) [(101, signaled 9)]"
    by (simp add: other_descendant_def running_globals_def signaled_def)
  have child: "0 < child_pid ?g"
    by (simp add: running_globals_def)
  have st: "WIFEXITED (exited 3) \<or> WIFSIGNALED (exited 3)"
    by (simp add: exited_def)
  have quit: "\<not> survive_bereaving ?g"
    by (simp add: running_globals_def init_globals_def)
  have plain: "signal_rewrite ?g ! nat SIGTERM \<noteq> ACTION"
    by (simp add: running_globals_def init_globals_def SIGTERM_def ACTION_def)
  have kept: "signal_rewrite ?g ! nat SIGTERM \<noteq> IGNORE"
    by (simp add: running_globals_def init_globals_def SIGTERM_def IGNORE_def)
  have slot: "signal_rewrite ?g ! nat SIGTERM = 2"
    by (simp add: running_globals_def init_globals_def SIGTERM_def)
  have setsid: "use_setsid ?g" "child_pid ?g = 100"
    by (simp_all add: running_globals_def init_globals_def)
  from bereavement_forwards_sigterm [OF reaped others child st quit plain kept] slot setsid
  show ?thesis
    by (simp add: computed_code_def exited_def UNSET_def)
qed

theorem sigterm_on_bereavement_counterexample:
  "kills (fst (handle_signal (quiet_env\<lparr>waitpid_results := [(100, exited 3)]\<rparr>)
          (running_globals\<lparr>signal_rewrite := (signal_rewrite running_globals)[15 := 2]\<rparr>) SIGCHLD)) =
     [(- 100, 2)] \<and>
   kills (fst (handle_signal (quiet_env\<lparr>waitpid_results := [(100, exited 3)]\<rparr>)
          (running_globals\<lparr>use_setsid := False\<rparr>) SIGCHLD)) =
     [(100, SIGTERM)]"
  by code_simp

text \<open>
  Claim C3, amended. When \<^verbatim>\<open>waitpid\<close> gives the direct child and \<^verbatim>\<open>survive_bereaving\<close> is
  false, the supervisor exits with \<^verbatim>\<open>WEXITSTATUS\<close> of the status after a normal exit and
  with 128 plus \<^verbatim>\<open>WTERMSIG\<close> after a death by signal, provided forwarding SIGTERM returns:
  slot 15 does not hold ACTION, or the \<^verbatim>\<open>fork\<close> of the action succeeds. (With
  \<^verbatim>\<open>-a '15:...'\<close> and a failed \<^verbatim>\<open>fork\<close>, \<^verbatim>\<open>do_action\<close> ends the supervisor with code 1.)
\<close>

theorem supervisor_exit_code:
  assumes reaped: "waitpid_results e = pre @ (child_pid g, st) # rest"
    and others: "list_all (other_descendant g) pre"
    and child: "0 < child_pid g"
    and st: "WIFEXITED st \<or> WIFSIGNALED st"
    and quit: "\<not> survive_bereaving g"
    and forwarded: "signal_rewrite g ! nat SIGTERM \<noteq> ACTION \<or> 0 < fork_result e"
  shows "(WIFEXITED st \<longrightarrow> snd (handle_signal e g SIGCHLD) = Exit (WEXITSTATUS st)) \<and>
         (\<not> WIFEXITED st \<longrightarrow> snd (handle_signal e g SIGCHLD) = Exit (128 + WTERMSIG st))"
proof -
  from forward_signal_SIGTERM_returns [OF forwarded]
  obtain f where fw: "forward_signal e g SIGTERM = (f, Return ())" ..
  from bereavement_exit [OF reaped others child st quit fw]
  have "snd (handle_signal e g SIGCHLD) = Exit (computed_code st)" ..
  then show ?thesis by (simp add: computed_code_def)
qed

theorem supervisor_exit_code_witness:
  "snd (handle_signal (quiet_env\<lparr>waitpid_results := [(101, exited 0), (100, signaled 15)]\<rparr>)
          term_action_globals SIGCHLD) = Exit 143 \<and>
   snd (handle_signal (quiet_env\<lparr>waitpid_results := [(100, exited 3)]\<rparr>)
          running_globals SIGCHLD) = Exit 3"
proof -
  let ?e = "quiet_env\<lparr>waitpid_results := [(101, exited 0), (100, signaled 15)]\<rparr>"
  let ?e' = "quiet_env\<lparr>waitpid_results := [(100, exited 3)]\<rparr>"
  have reaped: "waitpid_results ?e = [(101, exited 0)] @ (child_pid term_action_globals, signaled 15) # []"
    by (simp add: term_action_globals_def running_globals_def)
  have others: "list_all (other_descendant term_action_globals) [(101, exited 0)]"
    by (simp add: other_descendant_def term_action_globals_def running_globals_def exited_def)
  have child: "0 < child_pid term_action_globals"
    by (simp add: term_action_globals_def running_globals_def)
  have st: "WIFEXITED (signaled 15) \<or> WIFSIGNALED (signaled 15)"
    by (simp add: signaled_def)
  have quit: "\<not> survive_bereaving term_action_globals"
    by (simp add: term_action_globals_def running_globals_def init_globals_def)
  have forwarded: "signal_rewrite term_action_globals ! nat SIGTERM \<noteq> ACTION \<or> 0 < fork_result ?e"
    by (simp add: quiet_env_def)
  have reaped': "waitpid_results ?e' = [] @ (child_pid running_globals, exited 3) # []"
    by (simp add: running_globals_def)
  have others': "list_all (other_descendant running_globals) []"
    by simp
  have child': "0 < child_pid running_globals"
    by (simp add: running_globals_def)
  have st': "WIFEXITED (exited 3) \<or> WIFSIGNALED (exited 3)"
    by (simp add: exited_def)
  have quit': "\<not> survive_bereaving running_globals"
    by (simp add: running_globals_def init_globals_def)
  have forwarded': "signal_rewrite running_globals ! nat SIGTERM \<noteq> ACTION \<or> 0 < fork_result ?e'"
    by (simp add: quiet_env_def)
  from supervisor_exit_code [OF reaped others child st quit forwarded]
    supervisor_exit_code [OF reaped' others' child' st' quit' forwarded']
  show ?thesis
    by (simp add: signaled_def exited_def)
qed

theorem exit_code_counterexample:
  "snd (handle_signal (quiet_env\<lparr>waitpid_results := [(100, exited 0)], fork_result := - 1\<rparr>)
          term_action_globals SIGCHLD) = Exit 1 \<and>
   WIFEXITED (exited 0) \<and> WEXITSTATUS (exited 0) = 0 \<and>
   \<not> survive_bereaving term_action_globals \<and> child_pid term_action_globals = 100"
  by code_simp

subsection \<open>Parsing the options\<close>

lemma rewrite_all_length: "length (rewrite_all i r t) = length t"
proof (induction i r t rule: rewrite_all.induct)
  case (1 i r t)
  show ?case
  proof (cases "i \<le> MAXSIG")
    case True
    with 1 show ?thesis by (subst rewrite_all.simps) simp
  next
    case False
    then show ?thesis by (subst rewrite_all.simps) simp
  qed
qed

lemma rewrite_all_take:
  "0 \<le> i \<Longrightarrow> i \<le> 65 \<Longrightarrow> length t = 65 \<Longrightarrow>
   rewrite_all i r t = take (nat i) t @ replicate (65 - nat i) r"
proof (induction i r t rule: rewrite_all.induct)
  case (1 i r t)
  show ?case
  proof (cases "i \<le> MAXSIG")
    case False
    with "1.prems" have "i = 65" by (simp add: MAXSIG_def)
    with False "1.prems" show ?thesis by (subst rewrite_all.simps) simp
  next
    case True
    with "1.prems" have i: "nat i < 65" "nat (i + 1) = Suc (nat i)"
      by (simp_all add: MAXSIG_def)
    from True "1.prems" have "rewrite_all (i + 1) r (t[nat i := r]) =
        take (nat (i + 1)) (t[nat i := r]) @ replicate (65 - nat (i + 1)) r"
      by (intro "1.IH") (simp_all add: MAXSIG_def)
    also have "take (nat (i + 1)) (t[nat i := r]) = take (nat i) t @ [r]"
      using i "1.prems" by (simp add: take_Suc_conv_app_nth)
    also have "(take (nat i) t @ [r]) @ replicate (65 - nat (i + 1)) r =
        take (nat i) t @ replicate (65 - nat i) r"
      using i by (simp add: replicate_append_same Suc_diff_Suc flip: replicate_Suc)
    finally show ?thesis using True by (subst rewrite_all.simps) simp
  qed
qed

lemma rewrite_all_replicate: "length t = 65 \<Longrightarrow> rewrite_all 0 r t = replicate 65 r"
  by (simp add: rewrite_all_take)


lemma parse_rewrite_signum_Return:
  assumes "parse_rewrite_signum arg g = (es, Return g')" and "length (signal_rewrite g) = 65"
  shows "\<exists>s r. sscanf_d_d arg = (2, Some s, Some r) \<and> 0 \<le> s \<and> s \<le> MAXSIG \<and> 0 \<le> r \<and> r \<le> MAXSIG \<and>
           g' = g\<lparr>signal_rewrite :=
                    (if s = 0 then replicate 65 r else (signal_rewrite g)[nat s := r])\<rparr>"
  using assms
  by (auto simp: parse_rewrite_signum_def print_rewrite_signum_help_def rewrite_all_replicate
      split: prod.splits option.splits if_splits)

lemma parse_action_Return:
  assumes "parse_action arg g = (es, Return g')"
  shows "\<exists>s pos. sscanf_d_n arg = (1, Some s, Some pos) \<and> 0 \<le> s \<and> s \<le> MAXSIG \<and>
           g' = g\<lparr>signal_action := (signal_action g)[nat s := drop (nat pos) arg],
                   signal_rewrite := (signal_rewrite g)[nat s := - 2]\<rparr>"
  using assms
  by (auto simp: parse_action_def print_action_help_def
      split: prod.splits option.splits if_splits)

lemma parse_rewrite_signum_sized:
  "parse_rewrite_signum arg g = (es, Return g') \<Longrightarrow> tables_sized g \<Longrightarrow> tables_sized g'"
  by (auto simp: tables_sized_def dest!: parse_rewrite_signum_Return)

lemma parse_action_sized:
  "parse_action arg g = (es, Return g') \<Longrightarrow> tables_sized g \<Longrightarrow> tables_sized g'"
  by (auto simp: tables_sized_def dest!: parse_action_Return)

text \<open>One round of the options loop, by the option character.\<close>

lemma getopt_loop_step:
  assumes "getopt_loop a0 ((opt, optarg) # rest) g = (es, Return g')"
  obtains (verbose) "opt = CHR ''v''" "getopt_loop a0 rest (g\<lparr>debug := True\<rparr>) = (es, Return g')"
  | (single) "opt = CHR ''c''" "getopt_loop a0 rest (g\<lparr>use_setsid := False\<rparr>) = (es, Return g')"
  | (survive) "opt = CHR ''b''" "getopt_loop a0 rest (g\<lparr>survive_bereaving := True\<rparr>) = (es, Return g')"
  | (rewrite) es1 g1 es2 where "opt = CHR ''r''" "parse_rewrite_signum optarg g = (es1, Return g1)"
      "getopt_loop a0 rest g1 = (es2, Return g')"
  | (action) es1 g1 es2 where "opt = CHR ''a''" "parse_action optarg g = (es1, Return g1)"
      "getopt_loop a0 rest g1 = (es2, Return g')"
proof -
  consider "opt = CHR ''h''" | "opt = CHR ''v''" | "opt = CHR ''V''" | "opt = CHR ''c''"
    | "opt = CHR ''r''" | "opt = CHR ''a''" | "opt = CHR ''b''"
    | "opt \<notin> {CHR ''h'', CHR ''v'', CHR ''V'', CHR ''c'', CHR ''r'', CHR ''a'', CHR ''b''}"
    by blast
  then show ?thesis
  proof cases
    case 5
    obtain es1 r1 where p: "parse_rewrite_signum optarg g = (es1, r1)"
      by (cases "parse_rewrite_signum optarg g")
    show ?thesis
    proof (cases r1)
      case (Return g1)
      obtain es2 r2 where l: "getopt_loop a0 rest g1 = (es2, r2)"
        by (cases "getopt_loop a0 rest g1")
      with assms 5 p Return have "r2 = Return g'" by simp
      with 5 p Return l show ?thesis by (intro rewrite) simp_all
    qed (use assms 5 p in simp_all)
  next
    case 6
    obtain es1 r1 where p: "parse_action optarg g = (es1, r1)"
      by (cases "parse_action optarg g")
    show ?thesis
    proof (cases r1)
      case (Return g1)
      obtain es2 r2 where l: "getopt_loop a0 rest g1 = (es2, r2)"
        by (cases "getopt_loop a0 rest g1")
      with assms 6 p Return have "r2 = Return g'" by simp
      with 6 p Return l show ?thesis by (intro action) simp_all
    qed (use assms 6 p in simp_all)
  qed (use assms verbose single survive in \<open>simp_all add: PRINTERR_def\<close>)
qed

lemma getopt_loop_sized:
  "getopt_loop a0 opts g = (es, Return g') \<Longrightarrow> tables_sized g \<Longrightarrow> tables_sized g'"
proof (induction opts arbitrary: g es)
  case Nil
  then show ?case by simp
next
  case (Cons x opts)
  obtain opt optarg where x: "x = (opt, optarg)" by (cases x)
  from Cons.prems(1) [unfolded x] show ?case
  proof (cases rule: getopt_loop_step)
    case verbose
    with Cons.IH [OF verbose(2)] Cons.prems(2) show ?thesis by (simp add: tables_sized_def)
  next
    case single
    with Cons.IH [OF single(2)] Cons.prems(2) show ?thesis by (simp add: tables_sized_def)
  next
    case survive
    with Cons.IH [OF survive(2)] Cons.prems(2) show ?thesis by (simp add: tables_sized_def)
  next
    case (rewrite es1 g1 es2)
    from Cons.IH [OF rewrite(3)] parse_rewrite_signum_sized [OF rewrite(2) Cons.prems(2)]
    show ?thesis .
  next
    case (action es1 g1 es2)
    from Cons.IH [OF action(3)] parse_action_sized [OF action(2) Cons.prems(2)]
    show ?thesis .
  qed
qed

lemma init_globals_sized: "tables_sized init_globals"
  by (simp add: tables_sized_def init_globals_def)

text \<open>What \<^verbatim>\<open>parse_command\<close> returns, from the globals after the options loop.\<close>

lemma parse_command_Return:
  assumes "parse_command c g = (es, Return (g', cmd))"
  obtains es1 g1 where "getopt_loop (argv0 c) (options c) g = (es1, Return g1)"
    and "g' =
      (let g2 = (if DUMB_INIT_DEBUG c = Some ''1'' then g1\<lparr>debug := True\<rparr> else g1);
           g3 = (if DUMB_INIT_SETSID c = Some ''0'' then g2\<lparr>use_setsid := False\<rparr> else g2)
       in if use_setsid g3 then
            set_rewrite_to_sigstop_if_not_defined SIGTTIN
              (set_rewrite_to_sigstop_if_not_defined SIGTTOU
                (set_rewrite_to_sigstop_if_not_defined SIGTSTP g3))
          else g3)"
proof -
  obtain es1 r1 where l: "getopt_loop (argv0 c) (options c) g = (es1, r1)"
    by (cases "getopt_loop (argv0 c) (options c) g")
  show ?thesis
  proof (cases r1)
    case (Return g1)
    with assms l show ?thesis
      by (intro that [of es1 g1]) (auto simp: parse_command_def Let_def split: if_splits)
  qed (use assms l in \<open>simp_all add: parse_command_def\<close>)
qed


lemma set_rewrite_to_sigstop_fields:
  "use_setsid (set_rewrite_to_sigstop_if_not_defined s g) = use_setsid g"
  "signal_action (set_rewrite_to_sigstop_if_not_defined s g) = signal_action g"
  "length (signal_rewrite (set_rewrite_to_sigstop_if_not_defined s g)) = length (signal_rewrite g)"
  by (simp_all add: set_rewrite_to_sigstop_if_not_defined_def)

lemma set_rewrite_to_sigstop_nth:
  "nat s < length (signal_rewrite g) \<Longrightarrow>
   signal_rewrite (set_rewrite_to_sigstop_if_not_defined s g) ! i =
     (if i = nat s \<and> signal_rewrite g ! i = UNSET then SIGSTOP else signal_rewrite g ! i)"
  by (auto simp: set_rewrite_to_sigstop_if_not_defined_def UNSET_def nth_list_update)

text \<open>
  Claim C5. When \<^verbatim>\<open>parse_command\<close> returns with \<^verbatim>\<open>use_setsid\<close> set, each of the slots of
  SIGTSTP, SIGTTOU and SIGTTIN that the options left unset holds SIGSTOP, and each one
  the options wrote holds what they wrote; every other slot of the rewrite table and
  the whole action table are as the options loop left them.
\<close>

theorem job_control_defaults:
  assumes parsed: "parse_command c init_globals = (es, Return (g, cmd))"
    and setsid: "use_setsid g"
  shows "\<exists>es1 g1. getopt_loop (argv0 c) (options c) init_globals = (es1, Return g1) \<and>
           signal_rewrite g ! nat SIGTSTP =
             (if signal_rewrite g1 ! nat SIGTSTP = UNSET then SIGSTOP
              else signal_rewrite g1 ! nat SIGTSTP) \<and>
           signal_rewrite g ! nat SIGTTOU =
             (if signal_rewrite g1 ! nat SIGTTOU = UNSET then SIGSTOP
              else signal_rewrite g1 ! nat SIGTTOU) \<and>
           signal_rewrite g ! nat SIGTTIN =
             (if signal_rewrite g1 ! nat SIGTTIN = UNSET then SIGSTOP
              else signal_rewrite g1 ! nat SIGTTIN) \<and>
           (\<forall>i. i \<noteq> nat SIGTSTP \<and> i \<noteq> nat SIGTTOU \<and> i \<noteq> nat SIGTTIN \<longrightarrow>
              signal_rewrite g ! i = signal_rewrite g1 ! i) \<and>
           signal_action g = signal_action g1"
proof -
  from parsed obtain es1 g1 where
    loop: "getopt_loop (argv0 c) (options c) init_globals = (es1, Return g1)" and
    g: "g =
      (let g2 = (if DUMB_INIT_DEBUG c = Some ''1'' then g1\<lparr>debug := True\<rparr> else g1);
           g3 = (if DUMB_INIT_SETSID c = Some ''0'' then g2\<lparr>use_setsid := False\<rparr> else g2)
       in if use_setsid g3 then
            set_rewrite_to_sigstop_if_not_defined SIGTTIN
              (set_rewrite_to_sigstop_if_not_defined SIGTTOU
                (set_rewrite_to_sigstop_if_not_defined SIGTSTP g3))
          else g3)"
    by (rule parse_command_Return)
  define g3 where "g3 =
      (if DUMB_INIT_SETSID c = Some ''0''
       then (if DUMB_INIT_DEBUG c = Some ''1'' then g1\<lparr>debug := True\<rparr> else g1)\<lparr>use_setsid := False\<rparr>
       else (if DUMB_INIT_DEBUG c = Some ''1'' then g1\<lparr>debug := True\<rparr> else g1))"
  have tables: "signal_rewrite g3 = signal_rewrite g1" "signal_action g3 = signal_action g1"
    by (simp_all add: g3_def)
  from g have g': "g = (if use_setsid g3 then
            set_rewrite_to_sigstop_if_not_defined SIGTTIN
              (set_rewrite_to_sigstop_if_not_defined SIGTTOU
                (set_rewrite_to_sigstop_if_not_defined SIGTSTP g3))
          else g3)"
    by (simp add: g3_def Let_def)
  with setsid have "use_setsid g3"
    by (simp add: set_rewrite_to_sigstop_fields split: if_splits)
  with g' have eq: "g = set_rewrite_to_sigstop_if_not_defined SIGTTIN
              (set_rewrite_to_sigstop_if_not_defined SIGTTOU
                (set_rewrite_to_sigstop_if_not_defined SIGTSTP g3))"
    by simp
  from getopt_loop_sized [OF loop init_globals_sized] tables
  have len: "length (signal_rewrite g3) = 65"
    by (simp add: tables_sized_def)
  have nth: "signal_rewrite g ! i =
      (if (i = nat SIGTSTP \<or> i = nat SIGTTOU \<or> i = nat SIGTTIN) \<and> signal_rewrite g1 ! i = UNSET
       then SIGSTOP else signal_rewrite g1 ! i)" for i
    unfolding eq
    using len tables(1)
    by (auto simp: set_rewrite_to_sigstop_nth set_rewrite_to_sigstop_fields
        SIGTSTP_def SIGTTOU_def SIGTTIN_def SIGSTOP_def UNSET_def)
  have act: "signal_action g = signal_action g1"
    unfolding eq by (simp add: set_rewrite_to_sigstop_fields tables)
  from loop nth act show ?thesis
    by (intro exI [of _ es1] exI [of _ g1]) simp
qed


theorem job_control_defaults_witness:
  "\<exists>es g cmd.
     parse_command (sleep_cmdline\<lparr>options := [(CHR ''r'', ''21:0'')]\<rparr>) init_globals =
       (es, Return (g, cmd)) \<and>
     use_setsid g \<and>
     signal_rewrite g ! nat SIGTSTP = SIGSTOP \<and>
     signal_rewrite g ! nat SIGTTOU = SIGSTOP \<and>
     signal_rewrite g ! nat SIGTTIN = 0"
proof -
  let ?c = "sleep_cmdline\<lparr>options := [(CHR ''r'', ''21:0'')]\<rparr>"
  let ?g1 = "init_globals\<lparr>signal_rewrite := (signal_rewrite init_globals)[21 := 0]\<rparr>"
  let ?g = "init_globals\<lparr>signal_rewrite :=
              (signal_rewrite init_globals)[21 := 0, 20 := SIGSTOP, 22 := SIGSTOP]\<rparr>"
  have parsed: "parse_command ?c init_globals = ([], Return (?g, [''sleep'', ''60'']))"
    by code_simp
  have setsid: "use_setsid ?g"
    by (simp add: init_globals_def)
  have loop: "getopt_loop (argv0 ?c) (options ?c) init_globals = ([], Return ?g1)"
    by code_simp
  have slots: "signal_rewrite ?g1 ! nat SIGTSTP = UNSET" "signal_rewrite ?g1 ! nat SIGTTOU = UNSET"
    "signal_rewrite ?g1 ! nat SIGTTIN = 0"
    by (simp_all add: init_globals_def SIGTSTP_def SIGTTOU_def SIGTTIN_def UNSET_def)
  from job_control_defaults [OF parsed setsid] loop slots
  have "signal_rewrite ?g ! nat SIGTSTP = SIGSTOP \<and>
        signal_rewrite ?g ! nat SIGTTOU = SIGSTOP \<and>
        signal_rewrite ?g ! nat SIGTTIN = 0"
    by (auto simp: UNSET_def)
  with parsed setsid show ?thesis by blast
qed

subsection \<open>A bulk rewrite followed by single rewrites\<close>

lemma parse_rewrite_signum_bulk:
  assumes "length (signal_rewrite g) = 65" and "sscanf_d_d arg = (2, Some 0, Some R)"
    and "0 \<le> R" and "R \<le> MAXSIG"
  shows "parse_rewrite_signum arg g = ([], Return (g\<lparr>signal_rewrite := replicate 65 R\<rparr>))"
  using assms by (simp add: parse_rewrite_signum_def rewrite_all_replicate MAXSIG_def)

lemma parse_rewrite_signum_single:
  assumes "sscanf_d_d arg = (2, Some s, Some r)" and "1 \<le> s" and "s \<le> MAXSIG"
    and "0 \<le> r" and "r \<le> MAXSIG"
  shows "parse_rewrite_signum arg g =
           ([], Return (g\<lparr>signal_rewrite := (signal_rewrite g)[nat s := r]\<rparr>))"
  using assms by (simp add: parse_rewrite_signum_def)

lemma getopt_loop_rewrite:
  "parse_rewrite_signum optarg g = ([], Return g1) \<Longrightarrow>
   getopt_loop a0 ((CHR ''r'', optarg) # rest) g = getopt_loop a0 rest g1"
  by (cases "getopt_loop a0 rest g1") simp

lemma single_rewrites_loop:
  "list_all valid_single singles \<Longrightarrow>
   getopt_loop a0 (map (\<lambda>x. (CHR ''r'', fst x)) singles) g =
     ([], Return (g\<lparr>signal_rewrite := overwrite (map snd singles) (signal_rewrite g)\<rparr>))"
proof (induction singles arbitrary: g)
  case Nil
  then show ?case by simp
next
  case (Cons x singles)
  obtain arg s r where x: "x = (arg, s, r)" by (cases x)
  from Cons.prems have first: "valid_single x" and rest: "list_all valid_single singles"
    by simp_all
  from first x have v: "sscanf_d_d arg = (2, Some s, Some r)" "1 \<le> s" "s \<le> MAXSIG"
    "0 \<le> r" "r \<le> MAXSIG"
    by (simp_all add: valid_single_def)
  from parse_rewrite_signum_single [OF v]
  have "getopt_loop a0 (map (\<lambda>x. (CHR ''r'', fst x)) (x # singles)) g =
        getopt_loop a0 (map (\<lambda>x. (CHR ''r'', fst x)) singles)
          (g\<lparr>signal_rewrite := (signal_rewrite g)[nat s := r]\<rparr>)"
    unfolding x list.map fst_conv by (rule getopt_loop_rewrite)
  with Cons.IH [OF rest] x show ?case by simp
qed

lemma overwrite_length: "length (overwrite ps t) = length t"
  by (induction ps t rule: overwrite.induct) simp_all

lemma overwrite_nth:
  assumes "0 \<le> signum" and "nat signum < length t" and "list_all (\<lambda>p. 0 \<le> fst p) ps"
  shows "overwrite ps t ! nat signum = (case map_of (rev ps) signum of None \<Rightarrow> t ! nat signum | Some r \<Rightarrow> r)"
  using assms
proof (induction ps t rule: overwrite.induct)
  case (1 t)
  then show ?case by simp
next
  case (2 s r ps t)
  from "2.prems" have s: "0 \<le> s" and rest: "list_all (\<lambda>p. 0 \<le> fst p) ps"
    by simp_all
  from "2.prems" have "overwrite ps (t[nat s := r]) ! nat signum =
      (case map_of (rev ps) signum of None \<Rightarrow> t[nat s := r] ! nat signum | Some r' \<Rightarrow> r')"
    by (intro "2.IH") simp_all
  moreover from s "2.prems"(1,2) have "t[nat s := r] ! nat signum = (if s = signum then r else t ! nat signum)"
    by (auto simp: nth_list_update)
  ultimately show ?case
    by (simp add: map_add_def split: option.split)
qed

text \<open>
  Claim C6. The options loop, run on the bulk rewrite \<^verbatim>\<open>-r 0:R\<close> followed by any list of
  single rewrites \<^verbatim>\<open>-r S:R'\<close> with S from 1 to \<^verbatim>\<open>MAXSIG\<close>, returns with the rewrite table
  equal to the table initialised with R in every slot and then overwritten at each S
  with its R', and changes nothing else; in that table the slot of a signal holds the
  replacement of its last occurrence in the list, and R when it does not occur.
\<close>

theorem bulk_then_single_rewrites:
  assumes sized: "length (signal_rewrite g) = 65"
    and bulk: "sscanf_d_d bulk = (2, Some 0, Some R)" and R: "0 \<le> R" "R \<le> MAXSIG"
    and singles: "list_all valid_single singles"
  shows "getopt_loop a0 ((CHR ''r'', bulk) # map (\<lambda>x. (CHR ''r'', fst x)) singles) g =
           ([], Return (g\<lparr>signal_rewrite := initialised_then_overwritten R (map snd singles)\<rparr>)) \<and>
         (\<forall>signum. 1 \<le> signum \<and> signum \<le> MAXSIG \<longrightarrow>
            initialised_then_overwritten R (map snd singles) ! nat signum =
              (case map_of (rev (map snd singles)) signum of None \<Rightarrow> R | Some R' \<Rightarrow> R'))"
proof -
  from parse_rewrite_signum_bulk [OF sized bulk R]
  have "getopt_loop a0 ((CHR ''r'', bulk) # map (\<lambda>x. (CHR ''r'', fst x)) singles) g =
        getopt_loop a0 (map (\<lambda>x. (CHR ''r'', fst x)) singles) (g\<lparr>signal_rewrite := replicate 65 R\<rparr>)"
    by (rule getopt_loop_rewrite)
  with single_rewrites_loop [OF singles]
  have code: "getopt_loop a0 ((CHR ''r'', bulk) # map (\<lambda>x. (CHR ''r'', fst x)) singles) g =
           ([], Return (g\<lparr>signal_rewrite := initialised_then_overwritten R (map snd singles)\<rparr>))"
    by (simp add: initialised_then_overwritten_def MAXSIG_def)
  from singles have nonneg: "list_all (\<lambda>p. 0 \<le> fst p) (map snd singles)"
    by (induction singles) (simp_all add: valid_single_def)
  have later: "initialised_then_overwritten R (map snd singles) ! nat signum =
      (case map_of (rev (map snd singles)) signum of None \<Rightarrow> R | Some R' \<Rightarrow> R')"
    if "1 \<le> signum \<and> signum \<le> MAXSIG" for signum
  proof -
    from that have signum: "0 \<le> signum" "nat signum < length (replicate (nat (MAXSIG + 1)) R)"
      by (auto simp: MAXSIG_def)
    from overwrite_nth [OF signum nonneg] signum show ?thesis
      by (simp add: initialised_then_overwritten_def split: option.split)
  qed
  from code later show ?thesis by blast
qed

theorem bulk_then_single_rewrites_witness:
  "getopt_loop ''dumb-init''
     [(CHR ''r'', ''0:3''), (CHR ''r'', ''20:0''), (CHR ''r'', ''5:7''), (CHR ''r'', ''20:9'')]
     running_globals =
     ([], Return (running_globals\<lparr>signal_rewrite := (replicate 65 3)[20 := 0, 5 := 7, 20 := 9]\<rparr>)) \<and>
   initialised_then_overwritten 3 [(20, 0), (5, 7), (20, 9)] ! 20 = 9 \<and>
   initialised_then_overwritten 3 [(20, 0), (5, 7), (20, 9)] ! 21 = 3"
proof -
  let ?singles = "[(''20:0'', 20, 0), (''5:7'', 5, 7), (''20:9'', 20, 9)]"
  have sized: "length (signal_rewrite running_globals) = 65"
    by (simp add: running_globals_def init_globals_def)
  have bulk: "sscanf_d_d ''0:3'' = (2, Some 0, Some 3)"
    by code_simp
  have R: "(0::int) \<le> 3" "(3::int) \<le> MAXSIG"
    by (simp_all add: MAXSIG_def)
  have s1: "sscanf_d_d ''20:0'' = (2, Some 20, Some 0)" by code_simp
  have s2: "sscanf_d_d ''5:7'' = (2, Some 5, Some 7)" by code_simp
  have s3: "sscanf_d_d ''20:9'' = (2, Some 20, Some 9)" by code_simp
  have singles: "list_all valid_single ?singles"
    by (simp add: valid_single_def s1 s2 s3 MAXSIG_def)
  have table: "initialised_then_overwritten 3 (map snd ?singles) = (replicate 65 3)[20 := 0, 5 := 7, 20 := 9]"
    by (simp add: initialised_then_overwritten_def MAXSIG_def)
  have signum: "(1::int) \<le> 20 \<and> (20::int) \<le> MAXSIG" "(1::int) \<le> 21 \<and> (21::int) \<le> MAXSIG"
    by (simp_all add: MAXSIG_def)
  from bulk_then_single_rewrites [OF sized bulk R singles, of "''dumb-init''"] table signum
  show ?thesis
    by auto
qed

subsection \<open>Actions and their commands\<close>

lemma parse_rewrite_signum_keeps_commands:
  assumes "parse_rewrite_signum arg g = (es, Return g')"
    and "tables_sized g" and "actions_have_commands g"
  shows "actions_have_commands g'"
proof -
  from assms(2) have len: "length (signal_rewrite g) = 65"
    by (simp add: tables_sized_def)
  from parse_rewrite_signum_Return [OF assms(1) len]
  obtain s r where r: "0 \<le> r" and
    g': "g' = g\<lparr>signal_rewrite := (if s = 0 then replicate 65 r else (signal_rewrite g)[nat s := r])\<rparr>"
    by blast
  show ?thesis
    unfolding actions_have_commands_def
  proof (intro allI impI)
    fix i :: nat
    assume i: "i < 65" and slot: "signal_rewrite g' ! i = ACTION"
    from g' have act: "signal_action g' = signal_action g" by simp
    show "signal_action g' ! i \<noteq> []"
    proof (cases "s = 0 \<or> i = nat s")
      case True
      with g' i len have "signal_rewrite g' ! i = r" by auto
      with slot r show ?thesis by (simp add: ACTION_def)
    next
      case False
      with g' i len have "signal_rewrite g' ! i = signal_rewrite g ! i" by auto
      with slot i assms(3) act show ?thesis by (simp add: actions_have_commands_def)
    qed
  qed
qed

lemma parse_action_keeps_commands:
  assumes "parse_action arg g = (es, Return g')"
    and "tables_sized g" and "actions_have_commands g"
    and "action_has_command (CHR ''a'', arg)"
  shows "actions_have_commands g'"
proof -
  from parse_action_Return [OF assms(1)]
  obtain s pos where scan: "sscanf_d_n arg = (1, Some s, Some pos)" and
    g': "g' = g\<lparr>signal_action := (signal_action g)[nat s := drop (nat pos) arg],
                  signal_rewrite := (signal_rewrite g)[nat s := - 2]\<rparr>"
    by blast
  from assms(4) scan have cmd: "drop (nat pos) arg \<noteq> []"
    by (simp add: action_has_command_def)
  from assms(2) have len: "length (signal_rewrite g) = 65" "length (signal_action g) = 65"
    by (simp_all add: tables_sized_def)
  show ?thesis
    unfolding actions_have_commands_def
  proof (intro allI impI)
    fix i :: nat
    assume i: "i < 65" and slot: "signal_rewrite g' ! i = ACTION"
    show "signal_action g' ! i \<noteq> []"
    proof (cases "i = nat s")
      case True
      with g' i len cmd show ?thesis by simp
    next
      case False
      with g' have "signal_rewrite g' ! i = signal_rewrite g ! i"
        "signal_action g' ! i = signal_action g ! i"
        by simp_all
      with slot i assms(3) show ?thesis by (simp add: actions_have_commands_def)
    qed
  qed
qed

lemma getopt_loop_keeps_commands:
  "getopt_loop a0 opts g = (es, Return g') \<Longrightarrow> list_all action_has_command opts \<Longrightarrow>
   tables_sized g \<Longrightarrow> actions_have_commands g \<Longrightarrow> actions_have_commands g'"
proof (induction opts arbitrary: g es)
  case Nil
  then show ?case by simp
next
  case (Cons x opts)
  obtain opt optarg where x: "x = (opt, optarg)" by (cases x)
  from Cons.prems(2) x have here: "action_has_command (opt, optarg)"
    and rest: "list_all action_has_command opts"
    by simp_all
  from Cons.prems(1) [unfolded x] show ?case
  proof (cases rule: getopt_loop_step)
    case verbose
    from Cons.prems(3,4) show ?thesis
      by (intro Cons.IH [OF verbose(2) rest]) (simp_all add: tables_sized_def actions_have_commands_def)
  next
    case single
    from Cons.prems(3,4) show ?thesis
      by (intro Cons.IH [OF single(2) rest]) (simp_all add: tables_sized_def actions_have_commands_def)
  next
    case survive
    from Cons.prems(3,4) show ?thesis
      by (intro Cons.IH [OF survive(2) rest]) (simp_all add: tables_sized_def actions_have_commands_def)
  next
    case (rewrite es1 g1 es2)
    from parse_rewrite_signum_sized [OF rewrite(2) Cons.prems(3)]
      parse_rewrite_signum_keeps_commands [OF rewrite(2) Cons.prems(3,4)]
    show ?thesis
      by (intro Cons.IH [OF rewrite(3) rest])
  next
    case (action es1 g1 es2)
    from here action(1) have "action_has_command (CHR ''a'', optarg)" by simp
    from parse_action_sized [OF action(2) Cons.prems(3)]
      parse_action_keeps_commands [OF action(2) Cons.prems(3,4) this]
    show ?thesis
      by (intro Cons.IH [OF action(3) rest])
  qed
qed

lemma set_rewrite_to_sigstop_keeps_commands:
  assumes "actions_have_commands g" and "length (signal_rewrite g) = 65" and "nat s < 65"
  shows "actions_have_commands (set_rewrite_to_sigstop_if_not_defined s g)"
  using assms
  by (auto simp: actions_have_commands_def set_rewrite_to_sigstop_nth set_rewrite_to_sigstop_fields
      SIGSTOP_def ACTION_def)

lemma parse_rewrite_signum_other:
  assumes "parse_rewrite_signum arg g = (es, Return g')" and "tables_sized g"
    and "\<not> rewrite_of signum (CHR ''r'', arg)" and "0 \<le> signum"
  shows "signal_rewrite g' ! nat signum = signal_rewrite g ! nat signum"
proof -
  from assms(2) have len: "length (signal_rewrite g) = 65"
    by (simp add: tables_sized_def)
  from parse_rewrite_signum_Return [OF assms(1) len]
  obtain s r where scan: "sscanf_d_d arg = (2, Some s, Some r)" and s: "0 \<le> s" and
    g': "g' = g\<lparr>signal_rewrite := (if s = 0 then replicate 65 r else (signal_rewrite g)[nat s := r])\<rparr>"
    by blast
  from assms(3) scan have "s \<noteq> signum" "s \<noteq> 0"
    by (simp_all add: rewrite_of_def)
  with s assms(4) have "nat s \<noteq> nat signum" by simp
  with g' \<open>s \<noteq> 0\<close> show ?thesis by simp
qed

lemma parse_rewrite_signum_actions:
  assumes "parse_rewrite_signum arg g = (es, Return g')" and "tables_sized g"
  shows "signal_action g' = signal_action g"
proof -
  from assms(2) have len: "length (signal_rewrite g) = 65"
    by (simp add: tables_sized_def)
  from parse_rewrite_signum_Return [OF assms(1) len] show ?thesis by auto
qed

lemma parse_action_same:
  assumes "parse_action arg g = (es, Return g')" and "tables_sized g"
    and "action_for signum (CHR ''a'', arg)" and "action_has_command (CHR ''a'', arg)"
    and "0 \<le> signum" and "signum \<le> MAXSIG"
  shows "signal_rewrite g' ! nat signum = ACTION \<and> signal_action g' ! nat signum \<noteq> []"
proof -
  from parse_action_Return [OF assms(1)]
  obtain s pos where scan: "sscanf_d_n arg = (1, Some s, Some pos)" and
    g': "g' = g\<lparr>signal_action := (signal_action g)[nat s := drop (nat pos) arg],
                  signal_rewrite := (signal_rewrite g)[nat s := - 2]\<rparr>"
    by blast
  from assms(3) scan have s: "s = signum" by (simp add: action_for_def)
  from assms(4) scan have cmd: "drop (nat pos) arg \<noteq> []"
    by (simp add: action_has_command_def)
  from assms(2,5,6) have "nat signum < length (signal_rewrite g)" "nat signum < length (signal_action g)"
    by (simp_all add: tables_sized_def MAXSIG_def)
  with g' s cmd show ?thesis by (simp add: ACTION_def)
qed

lemma parse_action_other:
  assumes "parse_action arg g = (es, Return g')"
    and "\<not> action_for signum (CHR ''a'', arg)" and "0 \<le> signum"
  shows "signal_rewrite g' ! nat signum = signal_rewrite g ! nat signum \<and>
         signal_action g' ! nat signum = signal_action g ! nat signum"
proof -
  from parse_action_Return [OF assms(1)]
  obtain s pos where scan: "sscanf_d_n arg = (1, Some s, Some pos)" and s: "0 \<le> s" and
    g': "g' = g\<lparr>signal_action := (signal_action g)[nat s := drop (nat pos) arg],
                  signal_rewrite := (signal_rewrite g)[nat s := - 2]\<rparr>"
    by blast
  from assms(2) scan have "s \<noteq> signum" by (simp add: action_for_def)
  with s assms(3) have "nat s \<noteq> nat signum" by simp
  with g' show ?thesis by simp
qed

text \<open>Once the slot is an action with a command, options that do not rewrite it keep it so.\<close>

lemma getopt_loop_action_stays:
  "getopt_loop a0 opts g = (es, Return g') \<Longrightarrow> list_all action_has_command opts \<Longrightarrow>
   list_all (\<lambda>x. \<not> rewrite_of signum x) opts \<Longrightarrow> tables_sized g \<Longrightarrow>
   0 \<le> signum \<Longrightarrow> signum \<le> MAXSIG \<Longrightarrow>
   signal_rewrite g ! nat signum = ACTION \<and> signal_action g ! nat signum \<noteq> [] \<Longrightarrow>
   signal_rewrite g' ! nat signum = ACTION \<and> signal_action g' ! nat signum \<noteq> []"
proof (induction opts arbitrary: g es)
  case Nil
  then show ?case by simp
next
  case (Cons x opts)
  obtain opt optarg where x: "x = (opt, optarg)" by (cases x)
  from Cons.prems(2) x have here: "action_has_command (opt, optarg)"
    and cmds: "list_all action_has_command opts"
    by simp_all
  from Cons.prems(3) x have keep: "\<not> rewrite_of signum (opt, optarg)"
    and rest: "list_all (\<lambda>x. \<not> rewrite_of signum x) opts"
    by simp_all
  note range = Cons.prems(5,6)
  from Cons.prems(1) [unfolded x] show ?case
  proof (cases rule: getopt_loop_step)
    case verbose
    from Cons.prems(4,7) show ?thesis
      by (intro Cons.IH [OF verbose(2) cmds rest _ range]) (simp_all add: tables_sized_def)
  next
    case single
    from Cons.prems(4,7) show ?thesis
      by (intro Cons.IH [OF single(2) cmds rest _ range]) (simp_all add: tables_sized_def)
  next
    case survive
    from Cons.prems(4,7) show ?thesis
      by (intro Cons.IH [OF survive(2) cmds rest _ range]) (simp_all add: tables_sized_def)
  next
    case (rewrite es1 g1 es2)
    from keep rewrite(1) have "\<not> rewrite_of signum (CHR ''r'', optarg)" by simp
    from parse_rewrite_signum_other [OF rewrite(2) Cons.prems(4) this range(1)]
      parse_rewrite_signum_actions [OF rewrite(2) Cons.prems(4)] Cons.prems(7)
    have "signal_rewrite g1 ! nat signum = ACTION \<and> signal_action g1 ! nat signum \<noteq> []"
      by simp
    with parse_rewrite_signum_sized [OF rewrite(2) Cons.prems(4)] show ?thesis
      by (intro Cons.IH [OF rewrite(3) cmds rest _ range])
  next
    case (action es1 g1 es2)
    from here action(1) have cmd: "action_has_command (CHR ''a'', optarg)" by simp
    have "signal_rewrite g1 ! nat signum = ACTION \<and> signal_action g1 ! nat signum \<noteq> []"
    proof (cases "action_for signum (CHR ''a'', optarg)")
      case True
      from parse_action_same [OF action(2) Cons.prems(4) True cmd range] show ?thesis .
    next
      case False
      from parse_action_other [OF action(2) False range(1)] Cons.prems(7) show ?thesis
        by simp
    qed
    with parse_action_sized [OF action(2) Cons.prems(4)] show ?thesis
      by (intro Cons.IH [OF action(3) cmds rest _ range])
  qed
qed

text \<open>From an empty command: a command at the end means the slot is an action.\<close>

lemma getopt_loop_command_is_action:
  "getopt_loop a0 opts g = (es, Return g') \<Longrightarrow> list_all action_has_command opts \<Longrightarrow>
   no_rewrite_after_action signum opts \<Longrightarrow> tables_sized g \<Longrightarrow>
   0 \<le> signum \<Longrightarrow> signum \<le> MAXSIG \<Longrightarrow>
   signal_action g ! nat signum = [] \<Longrightarrow>
   signal_action g' ! nat signum \<noteq> [] \<Longrightarrow> signal_rewrite g' ! nat signum = ACTION"
proof (induction opts arbitrary: g es)
  case Nil
  then show ?case by simp
next
  case (Cons x opts)
  obtain opt optarg where x: "x = (opt, optarg)" by (cases x)
  from Cons.prems(2) x have here: "action_has_command (opt, optarg)"
    and cmds: "list_all action_has_command opts"
    by simp_all
  have skip: "no_rewrite_after_action signum opts" if "\<not> action_for signum (opt, optarg)"
    using that Cons.prems(3) x by (simp add: no_rewrite_after_action_def)
  have other: "\<not> action_for signum (opt, optarg)" if "opt \<noteq> CHR ''a''"
    using that by (simp add: action_for_def)
  note range = Cons.prems(5,6)
  note final = Cons.prems(8)
  from Cons.prems(1) [unfolded x] show ?case
  proof (cases rule: getopt_loop_step)
    case verbose
    from verbose(1) have order: "no_rewrite_after_action signum opts"
      by (intro skip other) simp
    from Cons.prems(4,7) show ?thesis
      by (intro Cons.IH [OF verbose(2) cmds order _ range _ final]) (simp_all add: tables_sized_def)
  next
    case single
    from single(1) have order: "no_rewrite_after_action signum opts"
      by (intro skip other) simp
    from Cons.prems(4,7) show ?thesis
      by (intro Cons.IH [OF single(2) cmds order _ range _ final]) (simp_all add: tables_sized_def)
  next
    case survive
    from survive(1) have order: "no_rewrite_after_action signum opts"
      by (intro skip other) simp
    from Cons.prems(4,7) show ?thesis
      by (intro Cons.IH [OF survive(2) cmds order _ range _ final]) (simp_all add: tables_sized_def)
  next
    case (rewrite es1 g1 es2)
    from rewrite(1) have order: "no_rewrite_after_action signum opts"
      by (intro skip other) simp
    from parse_rewrite_signum_actions [OF rewrite(2) Cons.prems(4)] Cons.prems(7)
    have "signal_action g1 ! nat signum = []" by simp
    with parse_rewrite_signum_sized [OF rewrite(2) Cons.prems(4)] show ?thesis
      by (intro Cons.IH [OF rewrite(3) cmds order _ range _ final])
  next
    case (action es1 g1 es2)
    from here action(1) have cmd: "action_has_command (CHR ''a'', optarg)" by simp
    show ?thesis
    proof (cases "action_for signum (CHR ''a'', optarg)")
      case True
      with Cons.prems(3) x action(1) have rest: "list_all (\<lambda>x. \<not> rewrite_of signum x) opts"
        by (simp add: no_rewrite_after_action_def)
      from getopt_loop_action_stays [OF action(3) cmds rest
          parse_action_sized [OF action(2) Cons.prems(4)] range
          parse_action_same [OF action(2) Cons.prems(4) True cmd range]]
      show ?thesis by simp
    next
      case False
      with action(1) have order: "no_rewrite_after_action signum opts"
        by (intro skip) simp
      from parse_action_other [OF action(2) False range(1)] Cons.prems(7)
      have "signal_action g1 ! nat signum = []" by simp
      with parse_action_sized [OF action(2) Cons.prems(4)] show ?thesis
        by (intro Cons.IH [OF action(3) cmds order _ range _ final])
    qed
  qed
qed

text \<open>The defaults of \<^verbatim>\<open>parse_command\<close> neither make nor unmake an action.\<close>

lemma parse_command_slots:
  assumes "parse_command c init_globals = (es, Return (g, cmd))"
  obtains es1 g1 where "getopt_loop (argv0 c) (options c) init_globals = (es1, Return g1)"
    and "signal_action g = signal_action g1"
    and "\<forall>i. (signal_rewrite g ! i = ACTION) = (signal_rewrite g1 ! i = ACTION)"
proof -
  from assms obtain es1 g1 where
    loop: "getopt_loop (argv0 c) (options c) init_globals = (es1, Return g1)" and
    g: "g =
      (let g2 = (if DUMB_INIT_DEBUG c = Some ''1'' then g1\<lparr>debug := True\<rparr> else g1);
           g3 = (if DUMB_INIT_SETSID c = Some ''0'' then g2\<lparr>use_setsid := False\<rparr> else g2)
       in if use_setsid g3 then
            set_rewrite_to_sigstop_if_not_defined SIGTTIN
              (set_rewrite_to_sigstop_if_not_defined SIGTTOU
                (set_rewrite_to_sigstop_if_not_defined SIGTSTP g3))
          else g3)"
    by (rule parse_command_Return)
  define g3 where "g3 =
      (if DUMB_INIT_SETSID c = Some ''0''
       then (if DUMB_INIT_DEBUG c = Some ''1'' then g1\<lparr>debug := True\<rparr> else g1)\<lparr>use_setsid := False\<rparr>
       else (if DUMB_INIT_DEBUG c = Some ''1'' then g1\<lparr>debug := True\<rparr> else g1))"
  have tables: "signal_rewrite g3 = signal_rewrite g1" "signal_action g3 = signal_action g1"
    by (simp_all add: g3_def)
  from g have g': "g = (if use_setsid g3 then
            set_rewrite_to_sigstop_if_not_defined SIGTTIN
              (set_rewrite_to_sigstop_if_not_defined SIGTTOU
                (set_rewrite_to_sigstop_if_not_defined SIGTSTP g3))
          else g3)"
    by (simp add: g3_def Let_def)
  from getopt_loop_sized [OF loop init_globals_sized] tables
  have len: "length (signal_rewrite g3) = 65"
    by (simp add: tables_sized_def)
  have act: "signal_action g = signal_action g1"
    unfolding g' by (simp add: set_rewrite_to_sigstop_fields tables)
  have rew: "(signal_rewrite g ! i = ACTION) = (signal_rewrite g1 ! i = ACTION)" for i
    unfolding g' using len tables(1)
    by (auto simp: set_rewrite_to_sigstop_nth set_rewrite_to_sigstop_fields
        SIGTSTP_def SIGTTOU_def SIGTTIN_def SIGSTOP_def UNSET_def ACTION_def)
  then have "\<forall>i. (signal_rewrite g ! i = ACTION) = (signal_rewrite g1 ! i = ACTION)" ..
  with loop act show ?thesis by (rule that)
qed

text \<open>
  Claim C7, amended. The claim is an equivalence, at every index from 1 to \<^verbatim>\<open>MAXSIG\<close>,
  between ACTION in the rewrite table and a non-empty command in the action table. In
  the code a rewrite option given after an action option for the same signal replaces
  the slot of the rewrite table and leaves the command where it is, and \<^verbatim>\<open>-a 'S:'\<close>
  stores the empty text after the colon. Amended: once \<^verbatim>\<open>parse_command\<close> has returned,
  the slot of a signal from 1 to \<^verbatim>\<open>MAXSIG\<close> in the rewrite table holds ACTION if and only if
  the action table has a non-empty command at the same index, provided every action
  option given had some text after its colon and no rewrite option for that signal, nor
  the bulk rewrite, was given after an action option for it.
\<close>

theorem action_iff_command:
  assumes parsed: "parse_command c init_globals = (es, Return (g, cmd))"
    and cmds: "list_all action_has_command (options c)"
    and order: "no_rewrite_after_action signum (options c)"
    and range: "1 \<le> signum" "signum \<le> MAXSIG"
  shows "(signal_rewrite g ! nat signum = ACTION) = (signal_action g ! nat signum \<noteq> [])"
proof -
  from parsed obtain es1 g1 where
    loop: "getopt_loop (argv0 c) (options c) init_globals = (es1, Return g1)" and
    act: "signal_action g = signal_action g1" and
    rew: "\<forall>i. (signal_rewrite g ! i = ACTION) = (signal_rewrite g1 ! i = ACTION)"
    by (rule parse_command_slots)
  from range have nonneg: "0 \<le> signum" and index: "nat signum < 65"
    by (simp_all add: MAXSIG_def)
  have init: "actions_have_commands init_globals"
    by (simp add: actions_have_commands_def init_globals_def ACTION_def)
  from getopt_loop_keeps_commands [OF loop cmds init_globals_sized init] index
  have forth: "signal_action g1 ! nat signum \<noteq> []" if "signal_rewrite g1 ! nat signum = ACTION"
    using that by (simp add: actions_have_commands_def)
  from index have empty: "signal_action init_globals ! nat signum = []"
    by (simp add: init_globals_def)
  have conv: "signal_rewrite g1 ! nat signum = ACTION" if "signal_action g1 ! nat signum \<noteq> []"
    using loop cmds order init_globals_sized nonneg range(2) empty that
    by (rule getopt_loop_command_is_action)
  from forth conv act rew show ?thesis by auto
qed

theorem action_iff_command_witness:
  "\<exists>es g cmd.
     parse_command
       (sleep_cmdline\<lparr>options :=
          [(CHR ''r'', ''5:2''), (CHR ''a'', ''5:x''), (CHR ''a'', ''10:echo hit''),
           (CHR ''r'', ''7:3'')]\<rparr>) init_globals =
       (es, Return (g, cmd)) \<and>
     signal_rewrite g ! nat 5 = ACTION \<and> signal_action g ! nat 5 = ''x'' \<and>
     signal_rewrite g ! nat 7 = 3 \<and> signal_action g ! nat 7 = []"
proof -
  let ?opts = "[(CHR ''r'', ''5:2''), (CHR ''a'', ''5:x''), (CHR ''a'', ''10:echo hit''),
           (CHR ''r'', ''7:3'')]"
  let ?c = "sleep_cmdline\<lparr>options := ?opts\<rparr>"
  let ?g = "init_globals
              \<lparr>signal_action := (signal_action init_globals)[5 := ''x'', 10 := ''echo hit''],
               signal_rewrite := (signal_rewrite init_globals)
                  [5 := ACTION, 10 := ACTION, 7 := 3, 20 := SIGSTOP, 22 := SIGSTOP, 21 := SIGSTOP]\<rparr>"
  have parsed: "parse_command ?c init_globals = ([], Return (?g, [''sleep'', ''60'']))"
    by code_simp
  have scans: "sscanf_d_n ''5:x'' = (1, Some 5, Some 2)"
    "sscanf_d_n ''10:echo hit'' = (1, Some 10, Some 3)"
    "sscanf_d_d ''5:2'' = (2, Some 5, Some 2)"
    "sscanf_d_d ''7:3'' = (2, Some 7, Some 3)"
    by code_simp+
  have cmds: "list_all action_has_command (options ?c)"
    by (simp add: action_has_command_def scans)
  have order5: "no_rewrite_after_action 5 (options ?c)"
    by (simp add: no_rewrite_after_action_def action_for_def rewrite_of_def scans)
  have order7: "no_rewrite_after_action 7 (options ?c)"
    by (simp add: no_rewrite_after_action_def action_for_def rewrite_of_def scans)
  have range: "(1::int) \<le> 5" "(5::int) \<le> MAXSIG" "(1::int) \<le> 7" "(7::int) \<le> MAXSIG"
    by (simp_all add: MAXSIG_def)
  have slot5: "signal_action ?g ! nat 5 = ''x''"
    by (simp add: init_globals_def)
  have slot7: "signal_rewrite ?g ! nat 7 = 3"
    by (simp add: init_globals_def)
  from action_iff_command [OF parsed cmds order5 range(1,2)] slot5
  have "signal_rewrite ?g ! nat 5 = ACTION" by simp
  moreover from action_iff_command [OF parsed cmds order7 range(3,4)] slot7
  have "signal_action ?g ! nat 7 = []" by (simp add: ACTION_def)
  ultimately show ?thesis
    using parsed slot5 slot7 by blast
qed

theorem action_invariant_counterexample:
  "parsed_slot (sleep_cmdline\<lparr>options := [(CHR ''a'', ''5:x''), (CHR ''r'', ''5:2'')]\<rparr>) 5 =
     Some (2, ''x'') \<and>
   parsed_slot (sleep_cmdline\<lparr>options := [(CHR ''a'', ''5:'')]\<rparr>) 5 = Some (ACTION, [])"
  by code_simp

end
